theory Spec2Isabelle
  imports Main "HOL-Library.Word"
begin

unbundle bit_operations_syntax

section \<open>Mesh attribute flags and the per-vertex byte stride\<close>

text \<open>
  \<^verbatim>\<open>#define VERTEX_HAS_UV2_FLAG 0x200000000ULL\<close>; the flag word of a mesh is a
  \<^verbatim>\<open>uint64_t\<close>, the computed stride a \<^verbatim>\<open>uint32_t\<close>.
\<close>

definition VERTEX_HAS_UV2_FLAG :: "64 word" where
  "VERTEX_HAS_UV2_FLAG = 0x200000000"

definition ConvertMeshFlags_191 :: "64 word \<Rightarrow> 64 word" where
  "ConvertMeshFlags_191 flags = flags AND NOT VERTEX_HAS_UV2_FLAG"

text \<open>One \<^verbatim>\<open>if (flags & bit) size += cost;\<close> statement of the size computation.\<close>

definition add_if_flag :: "64 word \<Rightarrow> 64 word \<Rightarrow> 32 word \<Rightarrow> 32 word \<Rightarrow> 32 word" where
  "add_if_flag flags flagbit cost sz = (if flags AND flagbit \<noteq> 0 then sz + cost else sz)"

definition CalculateVertexSize_191 :: "64 word \<Rightarrow> 32 word" where
  "CalculateVertexSize_191 flags =
     add_if_flag flags 0x2000000 8
       (add_if_flag flags 0x4000 4
         (add_if_flag flags 0x2000 8
           (add_if_flag flags 0x1000 4
             (add_if_flag flags 0x200 4
               (add_if_flag flags 0x10 4
                 (add_if_flag flags 0x2 8
                   (add_if_flag flags 0x1 12 0)))))))"

text \<open>The version 16 converter carries the same two functions under its own names.\<close>

definition ConvertMeshFlags_160 :: "64 word \<Rightarrow> 64 word" where
  "ConvertMeshFlags_160 flags = flags AND NOT VERTEX_HAS_UV2_FLAG"

definition CalculateVertexSize_160 :: "64 word \<Rightarrow> 32 word" where
  "CalculateVertexSize_160 flags =
     add_if_flag flags 0x2000000 8
       (add_if_flag flags 0x4000 4
         (add_if_flag flags 0x2000 8
           (add_if_flag flags 0x1000 4
             (add_if_flag flags 0x200 4
               (add_if_flag flags 0x10 4
                 (add_if_flag flags 0x2 8
                   (add_if_flag flags 0x1 12 0)))))))"

section \<open>Bytes, buffers and alignment\<close>

text \<open>
  A source buffer that the converter reads through raw pointers is a function from byte
  offsets to bytes: the code performs no bounds check, so every read has a value. A file
  whose size matters is a list of bytes. A \<^verbatim>\<open>float\<close> that is only copied or set
  to a literal is its IEEE-754 bit pattern. The output arena is addressed by the offset of
  the write cursor from the arena base (\<^verbatim>\<open>g_model.pData - g_model.pBase\<close>); the
  base itself is taken to be aligned, so aligning the pointer aligns the offset.
\<close>

type_synonym byte = "8 word"
type_synonym float32 = "32 word"
type_synonym mem = "nat \<Rightarrow> byte"

definition read_bytes :: "mem \<Rightarrow> nat \<Rightarrow> nat \<Rightarrow> byte list" where
  "read_bytes m addr n = map (\<lambda>k. m (addr + k)) [0..<n]"

definition FILEBUFSIZE :: nat where
  "FILEBUFSIZE = 32 * 1024 * 1024"

text \<open>
  Modelled from the spec: the macros \<^verbatim>\<open>ALIGN2\<close> and \<^verbatim>\<open>ALIGN4\<close> are used by the
  converters but declared in a header outside the translated sources. The specification
  describes them as alignment primitives of the output arena: "cursor is re-aligned
  (4/16/64-byte boundaries depending on section) before every structurally-aligned
  section begins", and the cursor never decreases. They are taken to round the cursor up
  to the next multiple of 2 and 4.
\<close>

definition ALIGN2 :: "nat \<Rightarrow> nat" where
  "ALIGN2 p = ((p + 1) div 2) * 2"

definition ALIGN4 :: "nat \<Rightarrow> nat" where
  "ALIGN4 p = ((p + 3) div 4) * 4"

text \<open>
  The vertex-geometry converter aligns in place,
  \<^verbatim>\<open>(reinterpret_cast<uintptr_t>(pWrite) + 15) & ~15\<close>.
\<close>

definition ALIGN16 :: "nat \<Rightarrow> nat" where
  "ALIGN16 p = ((p + 15) div 16) * 16"

text \<open>
  Sizes of target structures, the offset-scaling macro \<^verbatim>\<open>FIX_OFFSET\<close> and the flag
  constant \<^verbatim>\<open>STUDIO_ALLZEROS\<close> are declared in headers outside the translated sources;
  the model takes them as parameters.
\<close>

record layout =
  sizeof_mstudiobone :: nat
  sizeof_mstudiojigglebone :: nat
  sizeof_mstudioanimdesc :: nat
  sizeof_mstudioikrule :: nat
  sizeof_mstudioanimsections :: nat
  FIX_OFFSET :: "nat \<Rightarrow> nat"
  STUDIO_ALLZEROS :: "32 word"

section \<open>Bones\<close>

text \<open>
  The fields of the version 19.1 bone data that the converter reads, with the widths its
  comments and comparisons give them (\<^verbatim>\<open>0xFF\<close> is the 8-bit "none" collision index),
  and the address of the record in the source buffer (\<^verbatim>\<open>GetBoneData\<close>). Fields of
  the source record carry the prefix \<open>bd_\<close>, fields of the converted bone \<open>nb_\<close>.
  Names, pose transforms and the bone-controller fill are written independently of these
  fields and are left out.
\<close>

record mstudiobonedata_v191 =
  bd_addr :: nat
  bd_parent :: "16 word"
  bd_flags :: "32 word"
  bd_collisionIndex :: "8 word"
  bd_proctype :: "8 word"
  bd_procindex :: "16 word"

record mstudiobone_v8 =
  nb_parent :: "32 word"
  nb_flags :: "32 word"
  nb_proctype :: "32 word"
  nb_procindex :: "32 word"
  nb_collisionIndex :: "32 word"

definition V10_BONE_USED_BY_BONE_MERGE :: "32 word" where
  "V10_BONE_USED_BY_BONE_MERGE = 0x00040000"

definition TranslateBoneFlags_191 :: "32 word \<Rightarrow> 32 word" where
  "TranslateBoneFlags_191 flags = flags AND NOT V10_BONE_USED_BY_BONE_MERGE"

definition STUDIO_PROC_JIGGLE :: "32 word" where
  "STUDIO_PROC_JIGGLE = 5"

text \<open>The body of the first loop of \<^verbatim>\<open>ConvertBones_191\<close> for one bone.\<close>

definition ConvertBone_191 :: "mstudiobonedata_v191 \<Rightarrow> mstudiobone_v8" where
  "ConvertBone_191 oldBoneData =
     (let newBone = \<lparr> nb_parent = scast (bd_parent oldBoneData),
                       nb_flags = TranslateBoneFlags_191 (bd_flags oldBoneData),
                       nb_proctype = ucast (bd_proctype oldBoneData),
                       nb_procindex = ucast (bd_procindex oldBoneData),
                       nb_collisionIndex =
                         (if bd_collisionIndex oldBoneData = 0xFF then - 1
                          else ucast (bd_collisionIndex oldBoneData)) \<rparr>
      in if ucast (bd_proctype oldBoneData) = STUDIO_PROC_JIGGLE then newBone
         else if bd_proctype oldBoneData > 0
           then newBone \<lparr> nb_proctype := 0, nb_procindex := 0 \<rparr>
         else newBone)"

text \<open>
  \<^verbatim>\<open>proceduralBones\<close>: the bones pushed by the first loop, by index
  (the code recovers the index from the pointer it stored).
\<close>

definition proceduralBones :: "mstudiobonedata_v191 list \<Rightarrow> nat list" where
  "proceduralBones olds =
     filter (\<lambda>i. ucast (bd_proctype (olds ! i)) = STUDIO_PROC_JIGGLE) [0..<length olds]"

text \<open>
  The jiggle loop. The state is the bone array, the bytes written behind it so far and
  the cursor. Each step points the bone at the cursor, copies one jiggle record from the
  source and advances.
\<close>

fun copy_jiggles ::
  "layout \<Rightarrow> mem \<Rightarrow> mstudiobonedata_v191 list \<Rightarrow> nat \<Rightarrow> nat list \<Rightarrow>
   mstudiobone_v8 list \<times> byte list \<times> nat \<Rightarrow> mstudiobone_v8 list \<times> byte list \<times> nat" where
  "copy_jiggles L m olds pBoneStart [] st = st"
| "copy_jiggles L m olds pBoneStart (boneid # rest) (bones, written, pData) =
     (let oldBoneData = olds ! boneid;
          oldJBone = bd_addr oldBoneData + FIX_OFFSET L (unat (bd_procindex oldBoneData));
          bone = pBoneStart + boneid * sizeof_mstudiobone L;
          jBone = pData
      in copy_jiggles L m olds pBoneStart rest
           (bones[boneid := (bones ! boneid) \<lparr> nb_procindex := word_of_nat (jBone - bone) \<rparr>],
            written @ read_bytes m oldJBone (sizeof_mstudiojigglebone L),
            pData + sizeof_mstudiojigglebone L))"

record bones_result =
  newBones :: "mstudiobone_v8 list"
  jiggleStart :: nat
  jiggleBytes :: "byte list"
  pDataAfter :: nat

text \<open>The source address of the jiggle record of bone \<open>i\<close>.\<close>

definition jiggle_src :: "layout \<Rightarrow> mstudiobonedata_v191 list \<Rightarrow> nat \<Rightarrow> nat" where
  "jiggle_src L olds i = bd_addr (olds ! i) + FIX_OFFSET L (unat (bd_procindex (olds ! i)))"

text \<open>
  \<^verbatim>\<open>ConvertBones_191\<close> up to the end of the jiggle loop; \<open>pBoneStart\<close> is the
  cursor on entry. (The procedural-bone index tables written afterwards do not touch the
  bones or the copied records.)
\<close>

definition ConvertBones_191 ::
  "layout \<Rightarrow> mem \<Rightarrow> mstudiobonedata_v191 list \<Rightarrow> nat \<Rightarrow> bones_result" where
  "ConvertBones_191 L m olds pBoneStart =
     (let numBones = length olds;
          bones0 = map ConvertBone_191 olds;
          pData = ALIGN4 (pBoneStart + numBones * sizeof_mstudiobone L)
      in if proceduralBones olds = []
         then \<lparr> newBones = bones0, jiggleStart = pData, jiggleBytes = [], pDataAfter = pData \<rparr>
         else (case copy_jiggles L m olds pBoneStart (proceduralBones olds) (bones0, [], pData) of
                 (bones, written, pData') \<Rightarrow>
                   \<lparr> newBones = bones, jiggleStart = pData, jiggleBytes = written,
                     pDataAfter = ALIGN4 pData' \<rparr>))"

text \<open>The version 16 converter translates the collision index with the same expression.\<close>

definition ConvertCollisionIndex_160 :: "8 word \<Rightarrow> 32 word" where
  "ConvertCollisionIndex_160 collisionIndex =
     (if collisionIndex = 0xFF then - 1 else ucast collisionIndex)"

section \<open>Sequences and their animation descriptors\<close>

text \<open>
  The fields of the version 19.1 sequence and animation descriptors that the converter
  reads. \<^verbatim>\<open>activity\<close> is a \<^verbatim>\<open>uint16_t\<close> and the animation index array holds
  \<^verbatim>\<open>uint16_t\<close> entries (source comments and casts); counts and offsets whose width
  the sources do not show are integers. \<open>sq_animIndices\<close> is the array found at
  \<^verbatim>\<open>oldSeq + FIX_OFFSET(animindexindex)\<close> and \<open>sq_animDescAt\<close> the descriptor found
  at \<^verbatim>\<open>oldSeq + FIX_OFFSET(index)\<close>. Source fields carry the prefixes \<open>sq_\<close> and
  \<open>ad_\<close>, converted fields \<open>nsq_\<close> and \<open>nad_\<close>. Bounding boxes, blend parameters,
  fade times and node numbers are copied independently and are left out.
\<close>

record mstudioanimdesc_v191 =
  ad_sznameindex :: int
  ad_name :: string
  ad_fps :: float32
  ad_flags :: "32 word"
  ad_numframes :: int
  ad_animDataAsset :: "64 word"
  ad_numikrules :: int
  ad_ikruleindex :: int
  ad_sectionindex :: int
  ad_sectionframes :: int
  ad_sectionstallframes :: int

record mstudioseqdesc_v191 =
  sq_label :: string
  sq_flags :: "32 word"
  sq_activity :: "16 word"
  sq_groupsize0 :: int
  sq_groupsize1 :: int
  sq_animindexindex :: "16 word"
  sq_animIndices :: "nat \<Rightarrow> 16 word"
  sq_animDescAt :: "16 word \<Rightarrow> mstudioanimdesc_v191"

record mstudioseqdesc_v8 =
  nsq_label :: string
  nsq_flags :: "32 word"
  nsq_activity :: "32 word"
  nsq_numevents :: int
  nsq_eventindex :: int
  nsq_groupsize0 :: int
  nsq_groupsize1 :: int
  nsq_animindexindex :: int

text \<open>The body of the first loop of \<^verbatim>\<open>ConvertSequences_191\<close> for one sequence.\<close>

definition ConvertSeqDesc_191 :: "mstudioseqdesc_v191 \<Rightarrow> mstudioseqdesc_v8" where
  "ConvertSeqDesc_191 oldSeq =
     \<lparr> nsq_label = sq_label oldSeq,
       nsq_flags = sq_flags oldSeq,
       nsq_activity = (if sq_activity oldSeq = 65535 then - 1 else ucast (sq_activity oldSeq)),
       nsq_numevents = 0,
       nsq_eventindex = 0,
       nsq_groupsize0 = sq_groupsize0 oldSeq,
       nsq_groupsize1 = sq_groupsize1 oldSeq,
       nsq_animindexindex = 0 \<rparr>"

record mstudioanimdesc_v8 =
  nad_name :: string
  nad_fps :: float32
  nad_flags :: "32 word"
  nad_numframes :: int
  nad_nummovements :: int
  nad_animindex :: int
  nad_numikrules :: int
  nad_ikruleindex :: int
  nad_sectionindex :: int
  nad_sectionframes :: int

text \<open>
  What one pass of the inner loop leaves in the arena: the entry it stores in the
  animation index array, the descriptor, and the bone-flag bytes written at
  \<^verbatim>\<open>animindex\<close>.
\<close>

record anim_out =
  ao_index :: int
  ao_desc :: mstudioanimdesc_v8
  ao_boneflags :: "byte list"

text \<open>C division of \<^verbatim>\<open>int\<close>s truncates towards zero.\<close>

definition c_div :: "int \<Rightarrow> int \<Rightarrow> int" where
  "c_div a b = sgn a * sgn b * (\<bar>a\<bar> div \<bar>b\<bar>)"

text \<open>\<^verbatim>\<open>int flagSize = ((4 * numBones + 7) / 8 + 1) & 0xFFFFFFFE\<close>, for a positive bone count.\<close>

definition flagSize :: "nat \<Rightarrow> nat" where
  "flagSize numBones = ((4 * numBones + 7) div 8 + 1) AND 0xFFFFFFFE"

text \<open>The literal \<^verbatim>\<open>30.0f\<close>.\<close>

definition float_30 :: float32 where
  "float_30 = 0x41F00000"

definition locate_animdesc :: "mstudioseqdesc_v191 \<Rightarrow> nat \<Rightarrow> mstudioanimdesc_v191 option" where
  "locate_animdesc oldSeq animIdx =
     (if sq_animindexindex oldSeq > 0 \<and> sq_animIndices oldSeq animIdx > 0
      then Some (sq_animDescAt oldSeq (sq_animIndices oldSeq animIdx))
      else None)"

text \<open>
  The bone-flag array written at \<^verbatim>\<open>animindex\<close> by both branches:
  \<^verbatim>\<open>memset(g_model.pData, 0, flagSize)\<close> when the model has bones.
\<close>

definition write_boneflags :: "nat \<Rightarrow> nat \<Rightarrow> byte list \<times> nat" where
  "write_boneflags numBones pData =
     (if numBones > 0 then (replicate (flagSize numBones) 0, pData + flagSize numBones)
      else ([], pData))"

text \<open>
  One pass of the inner loop of \<^verbatim>\<open>ConvertSequences_191\<close>: \<open>newSeq\<close> is the
  position of the converted sequence descriptor, \<open>pData\<close> the cursor.
\<close>

definition ConvertAnim_191 ::
  "layout \<Rightarrow> nat \<Rightarrow> mstudioseqdesc_v191 \<Rightarrow> nat \<Rightarrow> nat \<Rightarrow> nat \<Rightarrow> anim_out \<times> nat" where
  "ConvertAnim_191 L numBones oldSeq newSeq animIdx pData0 =
     (let newAnim = ALIGN4 pData0;
          index = int newAnim - int newSeq;
          pData = newAnim + sizeof_mstudioanimdesc L;
          zero = \<lparr> nad_name = [], nad_fps = 0, nad_flags = 0, nad_numframes = 0,
                   nad_nummovements = 0, nad_animindex = 0, nad_numikrules = 0,
                   nad_ikruleindex = 0, nad_sectionindex = 0, nad_sectionframes = 0 \<rparr>
      in case locate_animdesc oldSeq animIdx of
           Some oldAnimDesc \<Rightarrow>
             (let a1 = zero \<lparr> nad_name := (if ad_sznameindex oldAnimDesc > 0
                                              then ad_name oldAnimDesc else sq_label oldSeq),
                               nad_fps := ad_fps oldAnimDesc,
                               nad_flags := ad_flags oldAnimDesc,
                               nad_numframes := ad_numframes oldAnimDesc,
                               nad_nummovements := 0 \<rparr>;
                  ik = (ad_numikrules oldAnimDesc > 0 \<and> ad_ikruleindex oldAnimDesc > 0);
                  pIk = (if ik then ALIGN4 pData else pData);
                  a2 = (if ik then a1 \<lparr> nad_ikruleindex := int pIk - int newAnim,
                                           nad_numikrules := ad_numikrules oldAnimDesc \<rparr>
                        else a1);
                  pData1 = (if ik then pIk + nat (ad_numikrules oldAnimDesc) * sizeof_mstudioikrule L
                            else pData);
                  pAnim = ALIGN4 pData1;
                  a3 = a2 \<lparr> nad_animindex := int pAnim - int newAnim \<rparr>;
                  bf = write_boneflags numBones pAnim;
                  sec = (ad_sectionindex oldAnimDesc > 0);
                  pSec = (if sec then ALIGN2 (snd bf) else snd bf);
                  numSections = (if ad_sectionframes oldAnimDesc > 0
                                 then c_div (ad_numframes oldAnimDesc
                                             - ad_sectionstallframes oldAnimDesc - 1)
                                            (ad_sectionframes oldAnimDesc) + 2
                                 else 1);
                  a4 = (if sec then a3 \<lparr> nad_sectionindex := int pSec - int newAnim,
                                            nad_sectionframes := ad_sectionframes oldAnimDesc \<rparr>
                        else a3);
                  pData2 = (if sec then pSec + nat numSections * sizeof_mstudioanimsections L
                            else pSec)
              in (\<lparr> ao_index = index, ao_desc = a4, ao_boneflags = fst bf \<rparr>, ALIGN2 pData2))
         | None \<Rightarrow>
             (let a1 = zero \<lparr> nad_name := sq_label oldSeq,
                               nad_fps := float_30,
                               nad_flags := STUDIO_ALLZEROS L,
                               nad_numframes := 1,
                               nad_nummovements := 0 \<rparr>;
                  pAnim = ALIGN4 pData;
                  a2 = a1 \<lparr> nad_animindex := int pAnim - int newAnim \<rparr>;
                  bf = write_boneflags numBones pAnim
              in (\<lparr> ao_index = index, ao_desc = a2, ao_boneflags = fst bf \<rparr>, ALIGN2 (snd bf))))"

text \<open>The inner loop over the cells \<^verbatim>\<open>animIdx = 0 .. numAnims - 1\<close>.\<close>

fun anim_loop ::
  "layout \<Rightarrow> nat \<Rightarrow> mstudioseqdesc_v191 \<Rightarrow> nat \<Rightarrow> nat list \<Rightarrow> nat \<Rightarrow> anim_out list \<times> nat" where
  "anim_loop L numBones oldSeq newSeq [] pData = ([], pData)"
| "anim_loop L numBones oldSeq newSeq (animIdx # rest) pData =
     (case ConvertAnim_191 L numBones oldSeq newSeq animIdx pData of
        (a, pData1) \<Rightarrow>
          (case anim_loop L numBones oldSeq newSeq rest pData1 of
             (as, pData2) \<Rightarrow> (a # as, pData2)))"

definition numAnims_191 :: "mstudioseqdesc_v191 \<Rightarrow> int" where
  "numAnims_191 oldSeq =
     (let numAnims = sq_groupsize0 oldSeq * sq_groupsize1 oldSeq
      in if numAnims \<le> 0 then 1 else numAnims)"

record seq_anims =
  sa_animindexindex :: int
  sa_newAnimIndices :: "int list"
  sa_anims :: "anim_out list"
  sa_pData :: nat

text \<open>
  The animation part of the second loop of \<^verbatim>\<open>ConvertSequences_191\<close> for one
  sequence: the index array is reserved with \<^verbatim>\<open>numAnims * sizeof(int)\<close> bytes and
  filled by the inner loop. (The copies of autolayers, events, weight list and pose keys
  that follow move the cursor further and are not part of this model.)
\<close>

definition ConvertSeqAnims_191 ::
  "layout \<Rightarrow> nat \<Rightarrow> mstudioseqdesc_v191 \<Rightarrow> nat \<Rightarrow> nat \<Rightarrow> seq_anims" where
  "ConvertSeqAnims_191 L numBones oldSeq newSeq pData0 =
     (let numAnims = nat (numAnims_191 oldSeq);
          pIdx = ALIGN4 pData0;
          pData = pIdx + numAnims * 4
      in case anim_loop L numBones oldSeq newSeq [0..<numAnims] pData of
           (as, pEnd) \<Rightarrow>
             \<lparr> sa_animindexindex = int pIdx - int newSeq,
               sa_newAnimIndices = map ao_index as,
               sa_anims = as,
               sa_pData = pEnd \<rparr>)"


text \<open>
  \<^verbatim>\<open>ConvertAnims_140\<close> (version 14 converter) sizes the same array from the
  \<^emph>\<open>sum\<close> of the two group sizes and emits one descriptor per entry when it is non-zero.
\<close>

definition numAnims_140 :: "int \<Rightarrow> int \<Rightarrow> int" where
  "numAnims_140 groupsize0 groupsize1 = groupsize0 + groupsize1"

definition emitted_animdescs_140 :: "int \<Rightarrow> int \<Rightarrow> nat" where
  "emitted_animdescs_140 groupsize0 groupsize1 =
     (let numAnims = numAnims_140 groupsize0 groupsize1
      in if numAnims \<noteq> 0 then length [0..<nat numAnims] else 0)"

section \<open>Physics header\<close>

text \<open>
  The physics file is a list of bytes. Reading two bytes as a little-endian
  \<^verbatim>\<open>uint16_t\<close> outside the buffer is undefined in the source; the model returns
  \<open>None\<close> there.
\<close>

definition read_u16 :: "byte list \<Rightarrow> nat \<Rightarrow> 16 word option" where
  "read_u16 buf off =
     (if off + 2 \<le> length buf
      then Some (ucast (buf ! off) OR push_bit 8 (ucast (buf ! (off + 1))))
      else None)"

definition le32 :: "32 word \<Rightarrow> byte list" where
  "le32 w = [ucast w, ucast (drop_bit 8 w), ucast (drop_bit 16 w), ucast (drop_bit 24 w)]"

definition read_u32 :: "byte list \<Rightarrow> nat \<Rightarrow> 32 word" where
  "read_u32 buf off =
     ucast (buf ! off) OR push_bit 8 (ucast (buf ! (off + 1)))
       OR push_bit 16 (ucast (buf ! (off + 2))) OR push_bit 24 (ucast (buf ! (off + 3)))"

record IVPSHeader =
  size_f :: "32 word"
  id_f :: "32 word"
  solidCount :: "32 word"
  checkSum :: "32 word"
  keyValuesOffset :: "32 word"

definition IVPSHeader_bytes :: "IVPSHeader \<Rightarrow> byte list" where
  "IVPSHeader_bytes h =
     le32 (size_f h) @ le32 (id_f h) @ le32 (solidCount h) @ le32 (checkSum h)
       @ le32 (keyValuesOffset h)"

definition sizeof_IVPSHeader :: nat where
  "sizeof_IVPSHeader = 20"

text \<open>
  The physics branch of \<^verbatim>\<open>ConvertRMDL191To10\<close>: the header it builds and the bytes
  it writes to the output physics file.
\<close>

definition ConvertPHY_191 :: "32 word \<Rightarrow> byte list \<Rightarrow> (IVPSHeader \<times> byte list) option" where
  "ConvertPHY_191 checksum phyInputBuf =
     (case read_u16 phyInputBuf 0 of
        None \<Rightarrow> None
      | Some v19Version \<Rightarrow>
          (case read_u16 phyInputBuf 2 of
             None \<Rightarrow> None
           | Some v19KeyValuesOffset \<Rightarrow>
               (let v10Header = \<lparr> size_f = 20, id_f = 1, solidCount = 1, checkSum = checksum,
                                   keyValuesOffset = ucast v19KeyValuesOffset + 16 \<rparr>
                in Some (v10Header, IVPSHeader_bytes v10Header @ drop 4 phyInputBuf))))"

text \<open>
  \<^verbatim>\<open>size_t v10PhySize = sizeof(IVPSHeader) + (phyInputSize - 4)\<close> in unsigned 64-bit
  arithmetic, and \<^verbatim>\<open>int phySizeValue = static_cast<int>(v10PhySize)\<close>.
\<close>

definition v10PhySize :: "byte list \<Rightarrow> 64 word" where
  "v10PhySize phyInputBuf =
     word_of_nat sizeof_IVPSHeader + (word_of_nat (length phyInputBuf) - 4)"

definition phySizeValue :: "byte list \<Rightarrow> 32 word" where
  "phySizeValue phyInputBuf = ucast (v10PhySize phyInputBuf)"

text \<open>
  \<^verbatim>\<open>seekp\<close> followed by \<^verbatim>\<open>write\<close> on a file: the bytes replace what is at the
  position (a position past the end pads with zeros).
\<close>

definition write_at :: "byte list \<Rightarrow> nat \<Rightarrow> byte list \<Rightarrow> byte list" where
  "write_at file pos bytes =
     take pos file @ replicate (pos - length file) 0 @ bytes @ drop (pos + length bytes) file"

text \<open>
  The update through \<^verbatim>\<open>rmdlUpdate\<close> of the model file as it stands on disk;
  \<open>is_open\<close> is the result of opening it, \<open>phySizeOffset\<close> is
  \<^verbatim>\<open>offsetof(r5::v8::studiohdr_t, phySize)\<close>.
\<close>

definition UpdatePhySize :: "bool \<Rightarrow> nat \<Rightarrow> byte list \<Rightarrow> 32 word \<Rightarrow> byte list" where
  "UpdatePhySize is_open phySizeOffset rmdlFile v =
     (if is_open then write_at rmdlFile phySizeOffset (le32 v) else rmdlFile)"

text \<open>
  The model file when \<^verbatim>\<open>ConvertRMDL191To10\<close> has returned. The stream
  \<^verbatim>\<open>out\<close> is opened before the conversion, receives the whole arena in one
  \<^verbatim>\<open>out.write(g_model.pBase, pHdr->length)\<close> and is neither flushed nor closed
  afterwards: it is closed by its destructor when the function returns, after
  \<^verbatim>\<open>rmdlUpdate\<close> has written the size. How much of the arena has reached the file
  by then is up to the stream: \<open>flushed\<close> bytes have, the rest waits in the buffer of
  \<^verbatim>\<open>out\<close> and is written at the position where \<^verbatim>\<open>out\<close> had stopped.
\<close>

definition rmdl_file_at_exit ::
  "bool \<Rightarrow> nat \<Rightarrow> byte list \<Rightarrow> nat \<Rightarrow> byte list \<Rightarrow> byte list" where
  "rmdl_file_at_exit is_open phySizeOffset arena flushed phyInputBuf =
     (let onDisk = take flushed arena;
          waiting = drop flushed arena;
          patched = UpdatePhySize is_open phySizeOffset onDisk (phySizeValue phyInputBuf)
      in if waiting = [] then patched else write_at patched (length onDisk) waiting)"

section \<open>Collision headers\<close>

text \<open>
  The offsets of a version 19.1 collision header are \<^verbatim>\<open>int\<close>s; differences are
  taken in 32 bits and widened to \<^verbatim>\<open>__int64\<close>. Fields carry the prefix \<open>ch_\<close>.
\<close>

record mstudiocollheader_v191 =
  ch_bvhFlags :: "32 word"
  ch_origin :: "float32 list"
  ch_decodeScale :: float32
  ch_vertsOfs :: "32 word"
  ch_leafDataOfs :: "32 word"
  ch_nodesOfs :: "32 word"

text \<open>
  Modelled from the spec: the macro \<^verbatim>\<open>ALIGN64\<close> is declared in a header outside the
  translated sources; by the specification's description of the arena ("cursor is
  re-aligned (4/16/64-byte boundaries depending on section)") it rounds the cursor up to
  the next multiple of 64.
\<close>

definition ALIGN64 :: "int \<Rightarrow> int" where
  "ALIGN64 p = ((p + 63) div 64) * 64"

definition vertSize :: "mstudiocollheader_v191 list \<Rightarrow> nat \<Rightarrow> int" where
  "vertSize pOldCollHeaders i =
     (let oldHeader = pOldCollHeaders ! i
      in sint (ch_leafDataOfs oldHeader - ch_vertsOfs oldHeader))"

definition leafSize :: "mstudiocollheader_v191 list \<Rightarrow> nat \<Rightarrow> int" where
  "leafSize pOldCollHeaders i =
     (let headerCount = length pOldCollHeaders; oldHeader = pOldCollHeaders ! i
      in if int i \<noteq> int headerCount - 1
         then sint (ch_vertsOfs (pOldCollHeaders ! (i + 1)) - ch_leafDataOfs oldHeader)
         else sint (ch_nodesOfs (pOldCollHeaders ! 0) - ch_leafDataOfs oldHeader))"

text \<open>
  For the last header the node size is computed in \<^verbatim>\<open>size_t\<close> from the file size
  and the offset of the collision data in the file, read as \<^verbatim>\<open>__int64\<close> and
  clamped to one MiB.
\<close>

definition nodeSize :: "mstudiocollheader_v191 list \<Rightarrow> nat \<Rightarrow> nat \<Rightarrow> nat \<Rightarrow> int" where
  "nodeSize pOldCollHeaders fileSize collisionOffset i =
     (let headerCount = length pOldCollHeaders; oldHeader = pOldCollHeaders ! i
      in if int i \<noteq> int headerCount - 1
         then sint (ch_nodesOfs (pOldCollHeaders ! (i + 1)) - ch_nodesOfs oldHeader)
         else (let maxNodeEnd = (word_of_nat fileSize - word_of_nat collisionOffset
                                  - scast (ch_nodesOfs oldHeader) :: 64 word);
                   nodeSize = sint maxNodeEnd
               in if nodeSize > 1024 * 1024 then 1024 * 1024 else nodeSize))"

record mstudiocollheader_v8 =
  nch_unk :: "32 word"
  nch_origin :: "float32 list"
  nch_scale :: float32
  nch_vertIndex :: int
  nch_bvhLeafIndex :: int
  nch_bvhNodeIndex :: int

text \<open>
  The two loops of \<^verbatim>\<open>ConvertCollisionData_V191\<close> over the headers: the cursor
  (relative to the new collision model) is aligned to 64 bytes before each buffer, the
  buffer's position is stored in the new header and the cursor advances by the inferred
  length.
\<close>

fun coll_verts_leaves ::
  "mstudiocollheader_v191 list \<Rightarrow> nat list \<Rightarrow> int \<Rightarrow> mstudiocollheader_v8 list \<times> int" where
  "coll_verts_leaves hs [] pData = ([], pData)"
| "coll_verts_leaves hs (i # rest) pData =
     (let oldHeader = hs ! i;
          vertIndex = ALIGN64 pData;
          pData1 = vertIndex + vertSize hs i;
          bvhLeafIndex = ALIGN64 pData1;
          pData2 = bvhLeafIndex + leafSize hs i;
          newHeader = \<lparr> nch_unk = ch_bvhFlags oldHeader, nch_origin = ch_origin oldHeader,
                        nch_scale = ch_decodeScale oldHeader, nch_vertIndex = vertIndex,
                        nch_bvhLeafIndex = bvhLeafIndex, nch_bvhNodeIndex = 0 \<rparr>
      in (case coll_verts_leaves hs rest pData2 of
            (news, pEnd) \<Rightarrow> (newHeader # news, pEnd)))"

fun coll_nodes ::
  "mstudiocollheader_v191 list \<Rightarrow> nat \<Rightarrow> nat \<Rightarrow> nat list \<Rightarrow> mstudiocollheader_v8 list \<Rightarrow> int \<Rightarrow>
   mstudiocollheader_v8 list \<times> int" where
  "coll_nodes hs fileSize collisionOffset [] news pData = (news, pData)"
| "coll_nodes hs fileSize collisionOffset (i # rest) news pData =
     (let bvhNodeIndex = ALIGN64 pData;
          pData1 = bvhNodeIndex + nodeSize hs fileSize collisionOffset i
      in coll_nodes hs fileSize collisionOffset rest
           (news[i := (news ! i) \<lparr> nch_bvhNodeIndex := bvhNodeIndex \<rparr>]) pData1)"

definition ConvertCollisionHeaders_V191 ::
  "mstudiocollheader_v191 list \<Rightarrow> nat \<Rightarrow> nat \<Rightarrow> int \<Rightarrow> mstudiocollheader_v8 list \<times> int" where
  "ConvertCollisionHeaders_V191 hs fileSize collisionOffset pData =
     (case coll_verts_leaves hs [0..<length hs] pData of
        (news, pData1) \<Rightarrow> coll_nodes hs fileSize collisionOffset [0..<length hs] news pData1)"

text \<open>Every section offset of every header is a non-negative \<^verbatim>\<open>int\<close>.\<close>

definition offsets_nonneg :: "mstudiocollheader_v191 list \<Rightarrow> bool" where
  "offsets_nonneg hs =
     list_all (\<lambda>h. 0 \<le> sint (ch_vertsOfs h) \<and> 0 \<le> sint (ch_leafDataOfs h)
                  \<and> 0 \<le> sint (ch_nodesOfs h)) hs"

section \<open>Bone-state pattern recovery\<close>

text \<open>
  \<^verbatim>\<open>FindBoneStateData_191\<close> searches the model file for the table that maps
  hardware bone slots to model bones. The file is read through a raw pointer of known
  size; offsets are \<^verbatim>\<open>size_t\<close>, the two counts \<^verbatim>\<open>uint16_t\<close>. The
  \<^verbatim>\<open>std::set<uint8_t>\<close> of the source is a duplicate-free list and its
  \<^verbatim>\<open>size()\<close> the length of that list.
\<close>

definition searchStart :: nat where
  "searchStart = 0x1000"

text \<open>
  The inner loop over \<^verbatim>\<open>i = 0 .. boneStateCount - 1\<close>: it stops at the first byte
  that is not below \<^verbatim>\<open>totalBones\<close> and otherwise inserts the byte into the set.
\<close>

fun unique_scan :: "mem \<Rightarrow> nat \<Rightarrow> 16 word \<Rightarrow> nat list \<Rightarrow> byte list \<Rightarrow> bool \<times> byte list" where
  "unique_scan m p totalBones [] uniqueValues = (True, uniqueValues)"
| "unique_scan m p totalBones (i # rest) uniqueValues =
     (if ucast (m (p + i)) \<ge> totalBones then (False, uniqueValues)
      else unique_scan m p totalBones rest (List.insert (m (p + i)) uniqueValues))"

text \<open>\<^verbatim>\<open>valid && uniqueValues.size() == boneStateCount\<close>\<close>

definition run_ok :: "mem \<Rightarrow> nat \<Rightarrow> nat \<Rightarrow> 16 word \<Rightarrow> bool" where
  "run_ok m p boneStateCount totalBones =
     (case unique_scan m p totalBones [0..<boneStateCount] [] of
        (valid, uniqueValues) \<Rightarrow> valid \<and> length uniqueValues = boneStateCount)"

text \<open>The check of the 16 bytes in front of a candidate run.\<close>

definition looksLikeHeader :: "mem \<Rightarrow> nat \<Rightarrow> bool" where
  "looksLikeHeader m off =
     (off \<ge> 16 \<and>
      (let header = (\<lambda>k. m (off - 16 + k))
       in header 0 \<ge> 1 \<and> header 0 \<le> 8
          \<and> header 4 = 0 \<and> header 8 = 0 \<and> header 12 = 0
          \<and> header 15 = 0))"

text \<open>\<^verbatim>\<open>for (size_t off = rmdlSize - boneStateCount; off >= searchStart; off--)\<close>\<close>

function backward_scan :: "mem \<Rightarrow> nat \<Rightarrow> 16 word \<Rightarrow> nat \<Rightarrow> nat option" where
  "backward_scan m boneStateCount totalBones off =
     (if off < searchStart then None
      else if run_ok m off boneStateCount totalBones \<and> looksLikeHeader m off then Some off
      else backward_scan m boneStateCount totalBones (off - 1))"
  by pat_completeness auto
termination
  by (relation "measure (\<lambda>(m, boneStateCount, totalBones, off). off)")
    (auto simp: searchStart_def)

text \<open>\<^verbatim>\<open>for (size_t off = searchStart; off < rmdlSize - boneStateCount; off++)\<close>\<close>

function forward_scan :: "mem \<Rightarrow> nat \<Rightarrow> nat \<Rightarrow> 16 word \<Rightarrow> nat \<Rightarrow> nat option" where
  "forward_scan m rmdlSize boneStateCount totalBones off =
     (if off < rmdlSize - boneStateCount
      then (if run_ok m off boneStateCount totalBones then Some off
            else forward_scan m rmdlSize boneStateCount totalBones (off + 1))
      else None)"
  by pat_completeness auto
termination
  by (relation "measure (\<lambda>(m, rmdlSize, boneStateCount, totalBones, off).
        rmdlSize - boneStateCount - off)") auto

declare backward_scan.simps [simp del] forward_scan.simps [simp del]

text \<open>The result is the offset of the table in the file, \<open>None\<close> for \<^verbatim>\<open>nullptr\<close>.\<close>

definition FindBoneStateData_191 :: "mem \<Rightarrow> nat \<Rightarrow> 16 word \<Rightarrow> 16 word \<Rightarrow> nat option" where
  "FindBoneStateData_191 rmdlData rmdlSize boneStateCount totalBones =
     (if boneStateCount = 0 \<or> totalBones = 0 \<or> rmdlSize < unat boneStateCount then None
      else (case backward_scan rmdlData (unat boneStateCount) totalBones
                   (rmdlSize - unat boneStateCount) of
              Some off \<Rightarrow> Some off
            | None \<Rightarrow> forward_scan rmdlData rmdlSize (unat boneStateCount) totalBones
                        searchStart))"

text \<open>The version 16 converter holds the same function under its own name.\<close>

definition FindBoneStateData_160 :: "mem \<Rightarrow> nat \<Rightarrow> 16 word \<Rightarrow> 16 word \<Rightarrow> nat option" where
  "FindBoneStateData_160 rmdlData rmdlSize boneStateCount totalBones =
     (if boneStateCount = 0 \<or> totalBones = 0 \<or> rmdlSize < unat boneStateCount then None
      else (case backward_scan rmdlData (unat boneStateCount) totalBones
                   (rmdlSize - unat boneStateCount) of
              Some off \<Rightarrow> Some off
            | None \<Rightarrow> forward_scan rmdlData rmdlSize (unat boneStateCount) totalBones
                        searchStart))"

text \<open>
  The fields of the model header that \<^verbatim>\<open>ConvertVGData_191\<close> reads, and the
  offset in the file at which \<^verbatim>\<open>pBoneStates()\<close> points (prefix \<open>h_\<close>).
\<close>

record studiohdr_v191 =
  h_boneStateCount :: "16 word"
  h_boneCount :: "16 word"
  h_pBoneStates :: nat

text \<open>
  The validation of the table at the declared offset:
  \<^verbatim>\<open>for (i = 0; i < boneStateChangeCount && validData; i++)\<close>, which inserts the
  byte also when it is out of range.
\<close>

fun header_scan :: "mem \<Rightarrow> nat \<Rightarrow> 16 word \<Rightarrow> nat list \<Rightarrow> bool \<Rightarrow> byte list \<Rightarrow> bool \<times> byte list" where
  "header_scan m p boneCount [] validData uniqueCheck = (validData, uniqueCheck)"
| "header_scan m p boneCount (i # rest) validData uniqueCheck =
     (if validData
      then header_scan m p boneCount rest
             (if ucast (m (p + i)) \<ge> boneCount then False else validData)
             (List.insert (m (p + i)) uniqueCheck)
      else (validData, uniqueCheck))"

definition header_table_valid :: "mem \<Rightarrow> studiohdr_v191 \<Rightarrow> bool" where
  "header_table_valid m hdr =
     (let boneStateChangeCount = unat (h_boneStateCount hdr)
      in case header_scan m (h_pBoneStates hdr) (h_boneCount hdr) [0..<boneStateChangeCount] True [] of
           (validData, uniqueCheck) \<Rightarrow> validData \<and> length uniqueCheck = boneStateChangeCount)"

text \<open>The messages of the converter that matter below, by their \<^verbatim>\<open>printf\<close> text.\<close>

datatype vg_message =
    WarnPatternSearchFailed   \<comment> \<open>\<^verbatim>\<open>WARNING: Pattern search failed, trying header offset...\<close>\<close>
  | WarnHeaderOffsetInvalid   \<comment> \<open>\<^verbatim>\<open>WARNING: Header offset points to invalid data!\<close>\<close>
  | InfoSequentialFallback    \<comment> \<open>\<^verbatim>\<open>BoneStateChange: %zu bones (sequential fallback, max index: %d)\<close>\<close>
  | WarnSequentialIndices     \<comment> \<open>\<^verbatim>\<open>WARNING: Using sequential bone indices - animations may be broken!\<close>\<close>
  | ErrorBufferOverflow       \<comment> \<open>\<^verbatim>\<open>[ERROR] VG CONV: Buffer overflow! Used %lld bytes more than allocated\<close>\<close>

text \<open>
  The bone-state section of \<^verbatim>\<open>ConvertVGData_191\<close>: the table it will write and
  the messages it prints. \<open>maxBoneIndex\<close> is the largest bone index seen in the
  vertices during the first pass.
\<close>

definition BoneStates_191 ::
  "studiohdr_v191 option \<Rightarrow> mem option \<Rightarrow> nat \<Rightarrow> byte \<Rightarrow> byte list \<times> vg_message list" where
  "BoneStates_191 pRmdlHdr rmdlData rmdlSize maxBoneIndex =
     (let (boneStates, msgs) =
            (case (pRmdlHdr, rmdlData) of
               (Some hdr, Some data) \<Rightarrow>
                 if h_boneStateCount hdr > 0 \<and> rmdlSize > 0
                 then (case FindBoneStateData_191 data rmdlSize (h_boneStateCount hdr) (h_boneCount hdr) of
                         Some off \<Rightarrow> (read_bytes data off (unat (h_boneStateCount hdr)), [])
                       | None \<Rightarrow>
                           if header_table_valid data hdr
                           then (read_bytes data (h_pBoneStates hdr) (unat (h_boneStateCount hdr)),
                                 [WarnPatternSearchFailed])
                           else ([], [WarnPatternSearchFailed, WarnHeaderOffsetInvalid]))
                 else ([], [])
             | _ \<Rightarrow> ([], []))
      in if boneStates = [] \<and> maxBoneIndex > 0
         then (map word_of_nat [0..<unat maxBoneIndex + 1], msgs @ [InfoSequentialFallback])
         else (boneStates, msgs))"

text \<open>
  The final fallback of the version 16 converter is not gated on the largest index:
  \<^verbatim>\<open>if (boneStates.empty())\<close>.
\<close>

definition sequential_fallback_160 :: "byte list \<Rightarrow> byte \<Rightarrow> byte list \<times> vg_message list" where
  "sequential_fallback_160 boneStates maxBoneIndex =
     (if boneStates = []
      then (map word_of_nat [0..<unat maxBoneIndex + 1], [WarnSequentialIndices])
      else (boneStates, []))"

text \<open>A table in which every value occurs at most once and is below the bone count.\<close>

definition valid_table :: "byte list \<Rightarrow> 16 word \<Rightarrow> bool" where
  "valid_table bs totalBones = (distinct bs \<and> list_all (\<lambda>b. ucast b < totalBones) bs)"

text \<open>What the backward scan accepts at an offset: a valid run behind a plausible header.\<close>

definition backward_candidate :: "mem \<Rightarrow> nat \<Rightarrow> 16 word \<Rightarrow> nat \<Rightarrow> bool" where
  "backward_candidate m n totalBones off =
     (valid_table (read_bytes m off n) totalBones \<and> looksLikeHeader m off)"

text \<open>
  The offsets each scan visits and accepts, in the words of the specification: the
  backward scan runs from the last offset at which the table still fits in the file down
  to \<open>0x1000\<close>; the forward scan runs from \<open>0x1000\<close> up to, but not including, that
  last offset, and asks for a valid run only.
\<close>

definition backward_hit :: "mem \<Rightarrow> nat \<Rightarrow> 16 word \<Rightarrow> 16 word \<Rightarrow> nat \<Rightarrow> bool" where
  "backward_hit data rmdlSize boneStateCount totalBones off =
     (searchStart \<le> off \<and> off + unat boneStateCount \<le> rmdlSize
      \<and> backward_candidate data (unat boneStateCount) totalBones off)"

definition forward_hit :: "mem \<Rightarrow> nat \<Rightarrow> 16 word \<Rightarrow> 16 word \<Rightarrow> nat \<Rightarrow> bool" where
  "forward_hit data rmdlSize boneStateCount totalBones off =
     (searchStart \<le> off \<and> off + unat boneStateCount < rmdlSize
      \<and> valid_table (read_bytes data off (unat boneStateCount)) totalBones)"

section \<open>Vertex-geometry container\<close>

text \<open>
  The fields of a revision 4 mesh header that \<^verbatim>\<open>ConvertVGData_191\<close> reads (prefix
  \<open>m_\<close>). Counts and sizes are unsigned fields of at most 32 bits and are natural
  numbers here; a product of two of them is taken in 32 bits, as the code takes it, and
  sums into a \<^verbatim>\<open>size_t\<close> are exact. The three accessors
  \<^verbatim>\<open>pVertices()\<close>, \<^verbatim>\<open>pIndices()\<close> and \<^verbatim>\<open>pBoneWeights()\<close> give an offset
  into the input buffer, or \<open>None\<close> for a null pointer. A level of detail is the list of
  its mesh headers and the container the list of its levels, each entry \<open>None\<close> where
  \<^verbatim>\<open>pMesh\<close> or \<^verbatim>\<open>pLod\<close> returns null.
\<close>

record MeshHeader_rev4 =
  m_flags :: "64 word"
  m_vertCacheSize :: nat
  m_vertCount :: nat
  m_vertBufferSize :: nat
  m_indexCount :: nat
  m_extraBoneWeightSize :: nat
  m_vertBoneCount :: nat
  m_pVertices :: "nat option"
  m_pIndices :: "nat option"
  m_pBoneWeights :: "nat option"

type_synonym VertexGroup_rev4 = "MeshHeader_rev4 option list option list"

text \<open>The converted mesh header (prefix \<open>om_\<close>).\<close>

record MeshHeader_rev1 =
  om_flags :: "64 word"
  om_vertOffset :: "32 word"
  om_vertCacheSize :: "32 word"
  om_vertCount :: "32 word"
  om_indexOffset :: "32 word"
  om_indexCount :: "32 word"
  om_extraBoneWeightOffset :: "32 word"
  om_extraBoneWeightSize :: "32 word"
  om_legacyWeightOffset :: "32 word"
  om_legacyWeightCount :: "32 word"
  om_stripOffset :: "32 word"
  om_stripCount :: "32 word"

text \<open>
  Every pass of the converter walks the levels and their meshes in the same order and
  skips null entries; this is the sequence of meshes it visits.
\<close>

definition visited_meshes :: "VertexGroup_rev4 \<Rightarrow> MeshHeader_rev4 list" where
  "visited_meshes g =
     concat (map (\<lambda>pLodHdr. case pLodHdr of None \<Rightarrow> []
                               | Some meshes \<Rightarrow> List.map_filter (\<lambda>pMesh. pMesh) meshes) g)"

text \<open>\<^verbatim>\<open>pMesh->flags != 0 && pMesh->vertCount > 0\<close>: the mesh gets a strip.\<close>

definition has_strip :: "MeshHeader_rev4 \<Rightarrow> bool" where
  "has_strip pMesh = (m_flags pMesh \<noteq> 0 \<and> m_vertCount pMesh > 0)"

text \<open>The converted stride of a mesh, \<^verbatim>\<open>v10VertSize\<close>.\<close>

definition v10VertSize_191 :: "MeshHeader_rev4 \<Rightarrow> nat" where
  "v10VertSize_191 pMesh = unat (CalculateVertexSize_191 (ConvertMeshFlags_191 (m_flags pMesh)))"

text \<open>
  The scan of the four bone indices at byte 12 of every vertex of a weighted mesh
  (\<^verbatim>\<open>flags & 0x1000\<close>) for the largest index.
\<close>

definition max_bone_of_vertex :: "mem \<Rightarrow> nat \<Rightarrow> byte \<Rightarrow> byte" where
  "max_bone_of_vertex vg pBones maxBoneIndex =
     fold (\<lambda>b mx. if vg (pBones + b) > mx then vg (pBones + b) else mx) [0..<4] maxBoneIndex"

definition scan_mesh_bones :: "mem \<Rightarrow> MeshHeader_rev4 \<Rightarrow> byte \<Rightarrow> byte" where
  "scan_mesh_bones vg pMesh maxBoneIndex =
     (if m_flags pMesh AND 0x1000 \<noteq> 0
      then (case m_pVertices pMesh of
              None \<Rightarrow> maxBoneIndex
            | Some pVerts \<Rightarrow>
                if m_vertCount pMesh > 0
                then fold (\<lambda>v mx. max_bone_of_vertex vg
                                     (pVerts + (v * m_vertCacheSize pMesh) mod 2 ^ 32 + 12) mx)
                       [0..<m_vertCount pMesh] maxBoneIndex
                else maxBoneIndex)
      else maxBoneIndex)"

record vg_totals =
  totalMeshCount :: nat
  totalVertexCount :: nat
  totalVertexBufSize :: nat
  totalIndexBufSize :: nat
  totalExtraWeightSize :: nat
  totalStripCount :: nat
  t_maxBoneIndex :: byte

text \<open>
  The body of the first pass for one mesh, and the pass. The product
  \<^verbatim>\<open>v10VertSize * pMesh->vertCount\<close> is taken in 32 bits before it is added to the
  \<^verbatim>\<open>size_t\<close> total.
\<close>

definition first_pass_mesh :: "mem \<Rightarrow> MeshHeader_rev4 \<Rightarrow> vg_totals \<Rightarrow> vg_totals" where
  "first_pass_mesh vg pMesh t =
     \<lparr> totalMeshCount = totalMeshCount t + 1,
       totalVertexCount = totalVertexCount t + m_vertCount pMesh,
       totalVertexBufSize = totalVertexBufSize t
                            + (v10VertSize_191 pMesh * m_vertCount pMesh) mod 2 ^ 32,
       totalIndexBufSize = totalIndexBufSize t + m_indexCount pMesh * 2,
       totalExtraWeightSize = totalExtraWeightSize t + m_extraBoneWeightSize pMesh,
       totalStripCount = totalStripCount t + (if has_strip pMesh then 1 else 0),
       t_maxBoneIndex = scan_mesh_bones vg pMesh (t_maxBoneIndex t) \<rparr>"

definition first_pass :: "mem \<Rightarrow> VertexGroup_rev4 \<Rightarrow> vg_totals" where
  "first_pass vg g =
     fold (first_pass_mesh vg) (visited_meshes g)
       \<lparr> totalMeshCount = 0, totalVertexCount = 0, totalVertexBufSize = 0,
         totalIndexBufSize = 0, totalExtraWeightSize = 0, totalStripCount = 0,
         t_maxBoneIndex = 0 \<rparr>"

text \<open>The bytes the three copy loops append for one mesh.\<close>

definition copy_mesh_indices :: "mem \<Rightarrow> MeshHeader_rev4 \<Rightarrow> byte list" where
  "copy_mesh_indices vg pMesh =
     (case m_pIndices pMesh of
        None \<Rightarrow> []
      | Some pSrcIndices \<Rightarrow>
          if m_indexCount pMesh > 0 then read_bytes vg pSrcIndices (m_indexCount pMesh * 2)
          else [])"

definition copy_mesh_vertices_191 :: "mem \<Rightarrow> MeshHeader_rev4 \<Rightarrow> byte list" where
  "copy_mesh_vertices_191 vg pMesh =
     (case m_pVertices pMesh of
        None \<Rightarrow> []
      | Some pSrcVerts \<Rightarrow>
          if m_vertCount pMesh > 0
          then (let v191VertSize = m_vertCacheSize pMesh;
                    v10VertSize = v10VertSize_191 pMesh
                in if v191VertSize \<noteq> v10VertSize
                   then concat (map (\<lambda>v. read_bytes vg (pSrcVerts + (v * v191VertSize) mod 2 ^ 32)
                                            v10VertSize)
                                  [0..<m_vertCount pMesh])
                   else read_bytes vg pSrcVerts (m_vertBufferSize pMesh))
          else [])"

definition copy_mesh_weights :: "mem \<Rightarrow> MeshHeader_rev4 \<Rightarrow> byte list" where
  "copy_mesh_weights vg pMesh =
     (case m_pBoneWeights pMesh of
        None \<Rightarrow> []
      | Some pSrcWeights \<Rightarrow>
          if m_extraBoneWeightSize pMesh > 0
          then read_bytes vg pSrcWeights (m_extraBoneWeightSize pMesh)
          else [])"

text \<open>
  The vertex copy of the version 16 converter: it always advances by the converted
  stride, and where it copies fewer bytes the rest of the vertex keeps the zero fill of
  the output buffer.
\<close>

definition copy_mesh_vertices_160 :: "mem \<Rightarrow> MeshHeader_rev4 \<Rightarrow> byte list" where
  "copy_mesh_vertices_160 vg pMesh =
     (case m_pVertices pMesh of
        None \<Rightarrow> []
      | Some pSrcVerts \<Rightarrow>
          if m_vertBufferSize pMesh > 0
          then (let v16VertSize = m_vertCacheSize pMesh;
                    v10VertSize = unat (CalculateVertexSize_160 (ConvertMeshFlags_160 (m_flags pMesh)))
                in if m_flags pMesh AND VERTEX_HAS_UV2_FLAG \<noteq> 0 \<and> v16VertSize > v10VertSize
                   then concat (map (\<lambda>v. read_bytes vg (pSrcVerts + (v * v16VertSize) mod 2 ^ 32)
                                            v10VertSize)
                                  [0..<m_vertCount pMesh])
                   else concat (map (\<lambda>v. read_bytes vg (pSrcVerts + (v * v16VertSize) mod 2 ^ 32)
                                            (min v16VertSize v10VertSize)
                                          @ replicate (v10VertSize - min v16VertSize v10VertSize) 0)
                                  [0..<m_vertCount pMesh]))
          else [])"

text \<open>
  The last pass fills the mesh headers with running offsets. Its state is the five
  running values \<^verbatim>\<open>indexOffset\<close>, \<^verbatim>\<open>vertexOffset\<close>, \<^verbatim>\<open>weightOffset\<close>,
  \<^verbatim>\<open>legacyWeightIdx\<close> and \<^verbatim>\<open>stripIndex\<close>.
\<close>

record fill_state =
  indexOffset :: nat
  vertexOffset :: nat
  weightOffset :: nat
  legacyWeightIdx :: nat
  stripIndex :: nat

definition fill_mesh_191 :: "fill_state \<Rightarrow> MeshHeader_rev4 \<Rightarrow> MeshHeader_rev1" where
  "fill_mesh_191 st pMesh =
     (let v10Flags = ConvertMeshFlags_191 (m_flags pMesh);
          v10VertCacheSize = CalculateVertexSize_191 v10Flags
      in \<lparr> om_flags = v10Flags,
           om_vertOffset = word_of_nat (vertexOffset st),
           om_vertCacheSize = v10VertCacheSize,
           om_vertCount = word_of_nat (m_vertCount pMesh),
           om_indexOffset = word_of_nat (indexOffset st div 2),
           om_indexCount = word_of_nat (m_indexCount pMesh),
           om_extraBoneWeightOffset = word_of_nat (weightOffset st),
           om_extraBoneWeightSize = word_of_nat (m_extraBoneWeightSize pMesh),
           om_legacyWeightOffset = word_of_nat (legacyWeightIdx st),
           om_legacyWeightCount = word_of_nat (m_vertCount pMesh),
           om_stripOffset = (if has_strip pMesh then word_of_nat (stripIndex st) else 0),
           om_stripCount = (if has_strip pMesh then 1 else 0) \<rparr>)"

definition fill_advance_191 :: "fill_state \<Rightarrow> MeshHeader_rev4 \<Rightarrow> fill_state" where
  "fill_advance_191 st pMesh =
     \<lparr> indexOffset = indexOffset st + m_indexCount pMesh * 2,
       vertexOffset = vertexOffset st + (v10VertSize_191 pMesh * m_vertCount pMesh) mod 2 ^ 32,
       weightOffset = weightOffset st + m_extraBoneWeightSize pMesh,
       legacyWeightIdx = legacyWeightIdx st + m_vertCount pMesh,
       stripIndex = stripIndex st + (if has_strip pMesh then 1 else 0) \<rparr>"

fun fill_meshes_191 :: "fill_state \<Rightarrow> MeshHeader_rev4 list \<Rightarrow> MeshHeader_rev1 list" where
  "fill_meshes_191 st [] = []"
| "fill_meshes_191 st (pMesh # rest) =
     fill_mesh_191 st pMesh # fill_meshes_191 (fill_advance_191 st pMesh) rest"

text \<open>
  Sizes of the revision 1 structures (declared outside the translated sources; the
  layout comment of the version 16 converter gives 224, 72, \<open>0x30\<close>, 8 and \<open>0x23\<close>).
\<close>

record vg_sizes =
  sizeof_VertexGroupHeader :: nat
  sizeof_MeshHeader :: nat
  sizeof_UnkVgData :: nat
  sizeof_ModelLODHeader :: nat
  sizeof_StripHeader :: nat

text \<open>
  What a run of \<^verbatim>\<open>ConvertVGData_191\<close> leaves behind: the size of the buffer it
  allocated, the section offsets it stored in the header, the data it copied, the final
  position of the write cursor, the \<^verbatim>\<open>dataSize\<close> it stored and passed to
  \<^verbatim>\<open>vgOut.write\<close>, and the messages it printed.
\<close>

record vg_result =
  r_outputBufSize :: nat
  r_boneStates :: "byte list"
  r_meshes :: "MeshHeader_rev1 list"
  r_meshOffset :: nat
  r_indexOffset :: nat
  r_indexData :: "byte list"
  r_vertOffset :: nat
  r_vertexData :: "byte list"
  r_extraBoneWeightOffset :: nat
  r_weightData :: "byte list"
  r_unknownOffset :: nat
  r_unknownCount :: nat
  r_lodOffset :: nat
  r_legacyWeightOffset :: nat
  r_stripOffset :: nat
  r_pWrite :: nat
  r_dataSize :: "32 word"
  r_messages :: "vg_message list"

text \<open>
  \<^verbatim>\<open>ConvertVGData_191\<close>. The result is \<open>None\<close> when the container has no level of
  detail (the converter returns without writing a file). The cursor is an offset from the
  start of the output buffer, which \<^verbatim>\<open>new char[]\<close> aligns to 16 bytes. Nothing
  between the allocation and the final comparison of the cursor with the end of the
  buffer looks at the buffer size.
\<close>

definition ConvertVGData_191 ::
  "vg_sizes \<Rightarrow> mem \<Rightarrow> VertexGroup_rev4 \<Rightarrow> studiohdr_v191 option \<Rightarrow> mem option \<Rightarrow> nat \<Rightarrow>
   vg_result option" where
  "ConvertVGData_191 S vg g pRmdlHdr rmdlData rmdlSize =
     (let lodCount = length g in
      if lodCount = 0 then None
      else
        (let meshes = visited_meshes g;
             t = first_pass vg g;
             (boneStates, msgs) = BoneStates_191 pRmdlHdr rmdlData rmdlSize (t_maxBoneIndex t);
             unknownCount = totalMeshCount t div lodCount;
             legacyWeightSize = totalVertexCount t * 16;
             outputBufSize =
               sizeof_VertexGroupHeader S
               + length boneStates
               + totalMeshCount t * sizeof_MeshHeader S
               + totalIndexBufSize t + 16
               + totalVertexBufSize t + 16
               + totalExtraWeightSize t
               + unknownCount * sizeof_UnkVgData S
               + lodCount * sizeof_ModelLODHeader S
               + legacyWeightSize
               + totalStripCount t * sizeof_StripHeader S
               + 4096;
             pBoneStateChange = sizeof_VertexGroupHeader S;
             pMeshStart = pBoneStateChange + length boneStates;
             pIndexData = ALIGN16 (pMeshStart + totalMeshCount t * sizeof_MeshHeader S);
             indexData = concat (map (copy_mesh_indices vg) meshes);
             pVertexData = ALIGN16 (pIndexData + length indexData);
             vertexData = concat (map (copy_mesh_vertices_191 vg) meshes);
             pWeightData = ALIGN16 (pVertexData + length vertexData);
             weightData = concat (map (copy_mesh_weights vg) meshes);
             pUnknownData = pWeightData + length weightData;
             pLodStart = pUnknownData + unknownCount * sizeof_UnkVgData S;
             pLegacyWeight = pLodStart + lodCount * sizeof_ModelLODHeader S;
             pStripData = pLegacyWeight + totalVertexCount t * 16;
             pWrite = pStripData + length (filter has_strip meshes) * sizeof_StripHeader S;
             outMeshes = fill_meshes_191
                           \<lparr> indexOffset = 0, vertexOffset = 0, weightOffset = 0,
                             legacyWeightIdx = 0, stripIndex = 0 \<rparr> meshes
         in Some \<lparr> r_outputBufSize = outputBufSize,
                   r_boneStates = boneStates,
                   r_meshes = outMeshes,
                   r_meshOffset = pMeshStart,
                   r_indexOffset = pIndexData,
                   r_indexData = indexData,
                   r_vertOffset = pVertexData,
                   r_vertexData = vertexData,
                   r_extraBoneWeightOffset = pWeightData,
                   r_weightData = weightData,
                   r_unknownOffset = pUnknownData,
                   r_unknownCount = unknownCount,
                   r_lodOffset = pLodStart,
                   r_legacyWeightOffset = pLegacyWeight,
                   r_stripOffset = pStripData,
                   r_pWrite = pWrite,
                   r_dataSize = word_of_nat pWrite,
                   r_messages = msgs @ (if pWrite > outputBufSize then [ErrorBufferOverflow]
                                        else []) \<rparr>))"

section \<open>Concrete inputs for worked examples\<close>

text \<open>
  A layout with small structure sizes chosen for the examples and the identity for
  \<^verbatim>\<open>FIX_OFFSET\<close>, and a sequence with no animation index array, parameterised by its
  blend grid.
\<close>

definition example_layout :: layout where
  "example_layout =
     \<lparr> sizeof_mstudiobone = 180, sizeof_mstudiojigglebone = 4, sizeof_mstudioanimdesc = 52,
       sizeof_mstudioikrule = 140, sizeof_mstudioanimsections = 4,
       FIX_OFFSET = (\<lambda>x. x), STUDIO_ALLZEROS = 0x20 \<rparr>"

definition example_animdesc :: mstudioanimdesc_v191 where
  "example_animdesc =
     \<lparr> ad_sznameindex = 0, ad_name = [], ad_fps = 0, ad_flags = 0, ad_numframes = 0,
       ad_animDataAsset = 0, ad_numikrules = 0, ad_ikruleindex = 0, ad_sectionindex = 0,
       ad_sectionframes = 0, ad_sectionstallframes = 0 \<rparr>"

definition example_seq :: "int \<Rightarrow> int \<Rightarrow> mstudioseqdesc_v191" where
  "example_seq g0 g1 =
     \<lparr> sq_label = ''ref'', sq_flags = 0, sq_activity = 65535,
       sq_groupsize0 = g0, sq_groupsize1 = g1, sq_animindexindex = 0,
       sq_animIndices = (\<lambda>i. 0), sq_animDescAt = (\<lambda>i. example_animdesc) \<rparr>"



text \<open>
  A six-byte physics file (version 1, key-values offset 16, two payload bytes) and a
  converted model of eight bytes whose \<^verbatim>\<open>phySize\<close> field is taken to sit at
  offset 4 and holds zero.
\<close>

definition example_phy :: "byte list" where
  "example_phy = [1, 0, 16, 0, 170, 187]"

definition example_rmdl :: "byte list" where
  "example_rmdl = [73, 68, 83, 84, 0, 0, 0, 0]"

text \<open>
  Two collision headers laid out as the converter expects: vertices and leaves of each
  header in turn, then the nodes of all headers.
\<close>

definition example_collheaders :: "mstudiocollheader_v191 list" where
  "example_collheaders =
     [\<lparr> ch_bvhFlags = 0, ch_origin = [0, 0, 0], ch_decodeScale = 0,
         ch_vertsOfs = 64, ch_leafDataOfs = 128, ch_nodesOfs = 512 \<rparr>,
      \<lparr> ch_bvhFlags = 0, ch_origin = [0, 0, 0], ch_decodeScale = 0,
         ch_vertsOfs = 192, ch_leafDataOfs = 256, ch_nodesOfs = 576 \<rparr>]"

text \<open>
  A source buffer whose byte at each address is the address modulo 256, and three bones:
  a plain bone, a jiggle bone whose record lies 8 bytes behind its bone data, and a
  quaternion-interpolation bone (procedural type 2).
\<close>

definition example_mem :: mem where
  "example_mem a = word_of_nat a"

definition example_bones :: "mstudiobonedata_v191 list" where
  "example_bones =
     [\<lparr> bd_addr = 0, bd_parent = - 1, bd_flags = 0x40400, bd_collisionIndex = 0xFF,
         bd_proctype = 0, bd_procindex = 0 \<rparr>,
      \<lparr> bd_addr = 100, bd_parent = 0, bd_flags = 0, bd_collisionIndex = 0,
         bd_proctype = 5, bd_procindex = 8 \<rparr>,
      \<lparr> bd_addr = 200, bd_parent = 1, bd_flags = 0, bd_collisionIndex = 1,
         bd_proctype = 2, bd_procindex = 12 \<rparr>]"

text \<open>
  A model file of 4140 bytes filled with \<open>0xFF\<close>, except for a 16-byte header at offset
  4100 (LOD count 1, flags \<open>01 01\<close>, zeros) followed by the bone-state table \<open>[2, 0, 1]\<close>;
  and a file of 4100 bytes of \<open>0xFF\<close> that contains no table at all.
\<close>

definition example_rmdl_mem :: mem where
  "example_rmdl_mem a =
     (if a = 4100 then 1
      else if a = 4102 \<or> a = 4103 then 1
      else if 4101 \<le> a \<and> a < 4116 then 0
      else if a = 4116 then 2
      else if a = 4117 then 0
      else if a = 4118 then 1
      else 0xFF)"

definition example_hdr :: studiohdr_v191 where
  "example_hdr = \<lparr> h_boneStateCount = 3, h_boneCount = 10, h_pBoneStates = 0 \<rparr>"

definition blank_mem :: mem where
  "blank_mem a = 0xFF"

text \<open>
  A file of \<open>0xFF\<close> bytes with the table \<open>[2, 0, 1]\<close> at offset \<open>p\<close> and no header
  in front of it, and a model header that declares its table at offset 100.
\<close>

definition table_at_mem :: "nat \<Rightarrow> mem" where
  "table_at_mem p a =
     (if a = p then 2 else if a = p + 1 then 0 else if a = p + 2 then 1 else 0xFF)"

definition low_table_hdr :: studiohdr_v191 where
  "low_table_hdr = \<lparr> h_boneStateCount = 3, h_boneCount = 10, h_pBoneStates = 100 \<rparr>"

text \<open>
  A container with one level of detail and one mesh that has positions only: one vertex
  of 12 bytes, whose header declares a vertex buffer of 8192 bytes. And a mesh with
  positions and the second UV channel whose header stride is 12, the size computed from
  its flags, with two vertices in a declared vertex buffer of 100 bytes.
\<close>

definition example_vg_sizes :: vg_sizes where
  "example_vg_sizes =
     \<lparr> sizeof_VertexGroupHeader = 224, sizeof_MeshHeader = 72, sizeof_UnkVgData = 0x30,
       sizeof_ModelLODHeader = 8, sizeof_StripHeader = 0x23 \<rparr>"

definition oversized_mesh :: MeshHeader_rev4 where
  "oversized_mesh =
     \<lparr> m_flags = 0x1, m_vertCacheSize = 12, m_vertCount = 1, m_vertBufferSize = 8192,
       m_indexCount = 0, m_extraBoneWeightSize = 0, m_vertBoneCount = 0,
       m_pVertices = Some 64, m_pIndices = None, m_pBoneWeights = None \<rparr>"

definition oversized_vg :: VertexGroup_rev4 where
  "oversized_vg = [Some [Some oversized_mesh]]"

definition uv2_mesh :: MeshHeader_rev4 where
  "uv2_mesh =
     \<lparr> m_flags = 0x200000001, m_vertCacheSize = 12, m_vertCount = 2, m_vertBufferSize = 100,
       m_indexCount = 0, m_extraBoneWeightSize = 0, m_vertBoneCount = 0,
       m_pVertices = Some 64, m_pIndices = None, m_pBoneWeights = None \<rparr>"

definition uv2_mesh_20 :: MeshHeader_rev4 where
  "uv2_mesh_20 = uv2_mesh \<lparr> m_vertCacheSize := 20, m_vertBufferSize := 40 \<rparr>"

definition zero_fill_state :: fill_state where
  "zero_fill_state =
     \<lparr> indexOffset = 0, vertexOffset = 0, weightOffset = 0, legacyWeightIdx = 0,
       stripIndex = 0 \<rparr>"

section \<open>Properties\<close>

lemma strip_uv2_keeps_bit:
  fixes flags :: "64 word"
  assumes "NOT VERTEX_HAS_UV2_FLAG AND b = b"
  shows "(flags AND NOT VERTEX_HAS_UV2_FLAG) AND b = flags AND b"
proof -
  have "(flags AND NOT VERTEX_HAS_UV2_FLAG) AND b = flags AND (NOT VERTEX_HAS_UV2_FLAG AND b)"
    by (simp only: and.assoc)
  then show ?thesis by (simp only: assms)
qed

lemma add_if_flag_strip:
  assumes "NOT VERTEX_HAS_UV2_FLAG AND b = b"
  shows "add_if_flag (flags AND NOT VERTEX_HAS_UV2_FLAG) b cost sz = add_if_flag flags b cost sz"
  by (simp only: add_if_flag_def strip_uv2_keeps_bit [OF assms])

lemma calc_size_strip_uv2:
  "CalculateVertexSize_191 (ConvertMeshFlags_191 f) = CalculateVertexSize_191 f"
  "CalculateVertexSize_160 (ConvertMeshFlags_160 f) = CalculateVertexSize_160 f"
proof -
  have b: "NOT VERTEX_HAS_UV2_FLAG AND (0x1 :: 64 word) = 0x1"
    "NOT VERTEX_HAS_UV2_FLAG AND (0x2 :: 64 word) = 0x2"
    "NOT VERTEX_HAS_UV2_FLAG AND (0x10 :: 64 word) = 0x10"
    "NOT VERTEX_HAS_UV2_FLAG AND (0x200 :: 64 word) = 0x200"
    "NOT VERTEX_HAS_UV2_FLAG AND (0x1000 :: 64 word) = 0x1000"
    "NOT VERTEX_HAS_UV2_FLAG AND (0x2000 :: 64 word) = 0x2000"
    "NOT VERTEX_HAS_UV2_FLAG AND (0x4000 :: 64 word) = 0x4000"
    "NOT VERTEX_HAS_UV2_FLAG AND (0x2000000 :: 64 word) = 0x2000000"
    by (simp_all add: VERTEX_HAS_UV2_FLAG_def)
  show "CalculateVertexSize_191 (ConvertMeshFlags_191 f) = CalculateVertexSize_191 f"
    unfolding CalculateVertexSize_191_def ConvertMeshFlags_191_def
    by (simp only: add_if_flag_strip [OF b(1)] add_if_flag_strip [OF b(2)]
        add_if_flag_strip [OF b(3)] add_if_flag_strip [OF b(4)] add_if_flag_strip [OF b(5)]
        add_if_flag_strip [OF b(6)] add_if_flag_strip [OF b(7)] add_if_flag_strip [OF b(8)])
  show "CalculateVertexSize_160 (ConvertMeshFlags_160 f) = CalculateVertexSize_160 f"
    unfolding CalculateVertexSize_160_def ConvertMeshFlags_160_def
    by (simp only: add_if_flag_strip [OF b(1)] add_if_flag_strip [OF b(2)]
        add_if_flag_strip [OF b(3)] add_if_flag_strip [OF b(4)] add_if_flag_strip [OF b(5)]
        add_if_flag_strip [OF b(6)] add_if_flag_strip [OF b(7)] add_if_flag_strip [OF b(8)])
qed

text \<open>
  Claim C10. For every 64-bit mesh flag word, the stride computed from the converted
  flags equals the stride computed from the unconverted flags: the bit \<open>0x200000000\<close>
  removed by the flag conversion is none of the eight bits that add to the stride. The
  same holds for the identical pair of functions of the version 16 converter.
\<close>

theorem vertex_size_ignores_uv2:
  "CalculateVertexSize_191 (ConvertMeshFlags_191 f) = CalculateVertexSize_191 f
   \<and> CalculateVertexSize_160 (ConvertMeshFlags_160 f) = CalculateVertexSize_160 f"
  by (simp only: calc_size_strip_uv2)

subsection \<open>Width promotion of sentinel values\<close>

lemma uint_ucast_8_32: "uint (ucast (c :: 8 word) :: 32 word) = uint c"
  by (simp add: uint_up_ucast is_up)

lemma uint_ucast_16_32: "uint (ucast (c :: 16 word) :: 32 word) = uint c"
  by (simp add: uint_up_ucast is_up)

lemma sint_eq_uint_32: "uint (w :: 32 word) < 2 ^ 31 \<Longrightarrow> sint w = uint w"
proof -
  assume a: "uint w < 2 ^ 31"
  have "- (2 ^ 31) \<le> uint w" by (rule order_trans [of _ 0]) simp_all
  then have "signed_take_bit 31 (uint w) = uint w"
    using a by (intro signed_take_bit_int_eq_self) simp_all
  then show ?thesis by (simp add: sint_uint)
qed

lemma sint_ucast_8_32: "sint (ucast (c :: 8 word) :: 32 word) = uint c"
proof -
  have "uint c < 2 ^ 8" using uint_lt2p [of c] by simp
  then have "uint (ucast c :: 32 word) < 2 ^ 31" by (simp add: uint_ucast_8_32)
  then show ?thesis by (simp add: sint_eq_uint_32 uint_ucast_8_32)
qed

lemma sint_ucast_16_32: "sint (ucast (c :: 16 word) :: 32 word) = uint c"
proof -
  have "uint c < 2 ^ 16" using uint_lt2p [of c] by simp
  then have "uint (ucast c :: 32 word) < 2 ^ 31" by (simp add: uint_ucast_16_32)
  then show ?thesis by (simp add: sint_eq_uint_32 uint_ucast_16_32)
qed

lemma ucast_8_32_ne_255: "c \<noteq> 0xFF \<Longrightarrow> (ucast (c :: 8 word) :: 32 word) \<noteq> 0xFF"
proof
  assume c: "c \<noteq> 0xFF" and "(ucast c :: 32 word) = 0xFF"
  then have "uint (ucast c :: 32 word) = 255" by simp
  then have "uint c = uint (0xFF :: 8 word)" by (simp add: uint_ucast_8_32)
  then have "c = 0xFF" by (simp only: word_uint_eq_iff)
  with c show False by simp
qed

lemma ucast_16_32_ne_65535: "c \<noteq> 65535 \<Longrightarrow> (ucast (c :: 16 word) :: 32 word) \<noteq> 65535"
proof
  assume c: "c \<noteq> 65535" and "(ucast c :: 32 word) = 65535"
  then have "uint (ucast c :: 32 word) = 65535" by simp
  then have "uint c = uint (65535 :: 16 word)" by (simp add: uint_ucast_16_32)
  then have "c = 65535" by (simp only: word_uint_eq_iff)
  with c show False by simp
qed

lemma nb_collisionIndex_ConvertBone:
  "nb_collisionIndex (ConvertBone_191 b) =
     (if bd_collisionIndex b = 0xFF then - 1 else ucast (bd_collisionIndex b))"
  by (simp add: ConvertBone_191_def Let_def)

text \<open>
  Claim C8. The reserved "no value" sentinels of the narrow source fields are translated
  when the field is promoted: a bone's 8-bit collision index \<open>0xFF\<close> becomes \<open>-1\<close>
  and any other value is copied (versions 19.1 and 16); a sequence's 16-bit activity
  \<open>65535\<close> becomes \<open>-1\<close> and any other value is copied. The promoted field is never the
  unsigned maximum of the narrow type.
\<close>

theorem sentinel_translation:
  "sint (nb_collisionIndex (ConvertBone_191 b)) =
     (if bd_collisionIndex b = 0xFF then - 1 else uint (bd_collisionIndex b))
   \<and> nb_collisionIndex (ConvertBone_191 b) \<noteq> 0xFF
   \<and> sint (ConvertCollisionIndex_160 c) = (if c = 0xFF then - 1 else uint c)
   \<and> ConvertCollisionIndex_160 c \<noteq> 0xFF
   \<and> sint (nsq_activity (ConvertSeqDesc_191 s)) =
       (if sq_activity s = 65535 then - 1 else uint (sq_activity s))
   \<and> nsq_activity (ConvertSeqDesc_191 s) \<noteq> 65535"
  by (simp add: nb_collisionIndex_ConvertBone ConvertCollisionIndex_160_def
      ConvertSeqDesc_191_def sint_ucast_8_32 sint_ucast_16_32 ucast_8_32_ne_255
      ucast_16_32_ne_65535)

subsection \<open>Animation descriptors per sequence\<close>

lemma anim_loop_length:
  "length (fst (anim_loop L nb s ns idxs p)) = length idxs"
proof (induction idxs arbitrary: p)
  case Nil
  then show ?case by simp
next
  case (Cons i rest)
  obtain a p1 where c: "ConvertAnim_191 L nb s ns i p = (a, p1)"
    by (cases "ConvertAnim_191 L nb s ns i p")
  obtain as p2 where r: "anim_loop L nb s ns rest p1 = (as, p2)"
    by (cases "anim_loop L nb s ns rest p1")
  from Cons.IH [of p1] r have "length as = length rest" by simp
  then show ?case by (simp add: c r)
qed

lemma anim_loop_nth:
  "k < length idxs \<Longrightarrow>
   \<exists>q. fst (anim_loop L nb s ns idxs p) ! k = fst (ConvertAnim_191 L nb s ns (idxs ! k) q)"
proof (induction idxs arbitrary: p k)
  case Nil
  then show ?case by simp
next
  case (Cons i rest)
  obtain a p1 where c: "ConvertAnim_191 L nb s ns i p = (a, p1)"
    by (cases "ConvertAnim_191 L nb s ns i p")
  obtain as p2 where r: "anim_loop L nb s ns rest p1 = (as, p2)"
    by (cases "anim_loop L nb s ns rest p1")
  show ?case
  proof (cases k)
    case 0
    have "fst (anim_loop L nb s ns (i # rest) p) ! 0 = fst (ConvertAnim_191 L nb s ns i p)"
      by (simp add: c r)
    with 0 show ?thesis by auto
  next
    case (Suc j)
    with Cons.prems have j: "j < length rest" by simp
    from Cons.IH [OF j, of p1] obtain q
      where "fst (anim_loop L nb s ns rest p1) ! j = fst (ConvertAnim_191 L nb s ns (rest ! j) q)"
      by blast
    then have "fst (anim_loop L nb s ns (i # rest) p) ! Suc j
                 = fst (ConvertAnim_191 L nb s ns ((i # rest) ! Suc j) q)"
      by (simp add: c r)
    with Suc show ?thesis by blast
  qed
qed

lemma sa_anims_eq:
  "sa_anims (ConvertSeqAnims_191 L nb s ns p) =
     fst (anim_loop L nb s ns [0..<nat (numAnims_191 s)] (ALIGN4 p + nat (numAnims_191 s) * 4))"
  by (simp add: ConvertSeqAnims_191_def Let_def split: prod.splits)

lemma sa_newAnimIndices_eq:
  "sa_newAnimIndices (ConvertSeqAnims_191 L nb s ns p) =
     map ao_index (sa_anims (ConvertSeqAnims_191 L nb s ns p))"
  by (simp add: ConvertSeqAnims_191_def Let_def split: prod.splits)

lemma numAnims_191_eq:
  "numAnims_191 s =
     (if 0 < sq_groupsize0 s * sq_groupsize1 s then sq_groupsize0 s * sq_groupsize1 s else 1)"
  by (simp add: numAnims_191_def Let_def)

lemma sa_anims_length:
  "length (sa_anims (ConvertSeqAnims_191 L nb s ns p)) = nat (numAnims_191 s)"
  by (simp add: sa_anims_eq anim_loop_length)

text \<open>
  Claim C2, as amended. For every sequence converted by \<^verbatim>\<open>ConvertSequences_191\<close>,
  the number of animation descriptors emitted equals the number of blend-grid cells
  \<open>groupsize[0] * groupsize[1]\<close> when that product is positive, and is one otherwise;
  the animation index array has one entry per emitted descriptor. In particular a
  sequence with \<open>groupsize = [2, 1]\<close> yields exactly 2 descriptors and an index array of
  2 entries.
\<close>

theorem anim_descriptor_count:
  "length (sa_anims (ConvertSeqAnims_191 L nb s ns p)) =
     (if 0 < sq_groupsize0 s * sq_groupsize1 s
      then nat (sq_groupsize0 s * sq_groupsize1 s) else 1)
   \<and> length (sa_newAnimIndices (ConvertSeqAnims_191 L nb s ns p)) =
       length (sa_anims (ConvertSeqAnims_191 L nb s ns p))
   \<and> length (sa_anims (ConvertSeqAnims_191 L nb
         (s \<lparr> sq_groupsize0 := 2, sq_groupsize1 := 1 \<rparr>) ns p)) = 2
   \<and> length (sa_newAnimIndices (ConvertSeqAnims_191 L nb
         (s \<lparr> sq_groupsize0 := 2, sq_groupsize1 := 1 \<rparr>) ns p)) = 2"
  by (simp add: sa_newAnimIndices_eq sa_anims_length numAnims_191_eq)

text \<open>
  The claim as stated (descriptor count equals the number of blend-grid cells for every
  sequence) fails for an empty blend grid: with \<open>groupsize = [0, 0]\<close> there are no cells,
  yet one descriptor is emitted.
\<close>

theorem anim_descriptor_count_counterexample:
  "length (sa_anims (ConvertSeqAnims_191 example_layout 1 (example_seq 0 0) 0 0))
     \<noteq> nat (sq_groupsize0 (example_seq 0 0) * sq_groupsize1 (example_seq 0 0))"
  unfolding sa_anims_length by (simp add: numAnims_191_eq example_seq_def)

text \<open>
  The version 14 converter sizes the array from the sum of the group sizes: for
  \<open>groupsize = [2, 1]\<close> it emits three descriptors.
\<close>

lemma anims_140_sum: "emitted_animdescs_140 2 1 = 3"
  by (simp add: emitted_animdescs_140_def numAnims_140_def)














subsection \<open>Physics header\<close>

lemma le32_length [simp]: "length (le32 w) = 4"
  by (simp add: le32_def)

lemma le32_roundtrip:
  "(ucast (ucast w :: byte) :: 32 word)
     OR push_bit 8 (ucast (ucast (drop_bit 8 w) :: byte))
     OR push_bit 16 (ucast (ucast (drop_bit 16 w) :: byte))
     OR push_bit 24 (ucast (ucast (drop_bit 24 w) :: byte)) = w"
proof (rule bit_word_eqI)
  fix n
  assume "n < LENGTH(32)"
  then have n: "n < 32" by simp
  consider "n < 8" | "8 \<le> n" "n < 16" | "16 \<le> n" "n < 24" | "24 \<le> n"
    by linarith
  then show "bit ((ucast (ucast w :: byte) :: 32 word)
     OR push_bit 8 (ucast (ucast (drop_bit 8 w) :: byte))
     OR push_bit 16 (ucast (ucast (drop_bit 16 w) :: byte))
     OR push_bit 24 (ucast (ucast (drop_bit 24 w) :: byte))) n = bit w n"
    using n by cases (auto simp: bit_simps)
qed

lemma read_u32_le32:
  "read_u32 (pre @ le32 w @ post) (length pre) = w"
proof -
  have "(pre @ le32 w @ post) ! (length pre) = ucast w"
    "(pre @ le32 w @ post) ! (length pre + 1) = ucast (drop_bit 8 w)"
    "(pre @ le32 w @ post) ! (length pre + 2) = ucast (drop_bit 16 w)"
    "(pre @ le32 w @ post) ! (length pre + 3) = ucast (drop_bit 24 w)"
    by (simp_all add: nth_append le32_def)
  then show ?thesis
    unfolding read_u32_def by (simp only: le32_roundtrip)
qed

lemma write_at_inside:
  assumes "pos + length bytes \<le> length file"
  shows "write_at file pos bytes = take pos file @ bytes @ drop (pos + length bytes) file"
    and "length (write_at file pos bytes) = length file"
    and "i < pos \<Longrightarrow> write_at file pos bytes ! i = file ! i"
    and "pos + length bytes \<le> i \<Longrightarrow> i < length file \<Longrightarrow> write_at file pos bytes ! i = file ! i"
  using assms by (auto simp: write_at_def nth_append min_def)

lemma IVPSHeader_bytes_length [simp]: "length (IVPSHeader_bytes h) = 20"
  by (simp add: IVPSHeader_bytes_def)

lemma ucast_of_nat_64_32: "(ucast (word_of_nat k :: 64 word) :: 32 word) = word_of_nat k"
  by (rule bit_word_eqI) (auto simp: bit_simps)

lemma phySizeValue_eq: "phySizeValue phy = word_of_nat (length phy) + 16"
proof -
  have "v10PhySize phy = word_of_nat (length phy + 16)"
    by (simp add: v10PhySize_def sizeof_IVPSHeader_def)
  then have "phySizeValue phy = word_of_nat (length phy + 16)"
    unfolding phySizeValue_def by (simp only: ucast_of_nat_64_32)
  then show ?thesis by simp
qed

lemma le32_const: "le32 20 = [20, 0, 0, 0]" "le32 1 = [1, 0, 0, 0]"
  by (simp_all add: le32_def drop_bit_eq_div)

lemma physics_header_bytes:
  assumes "4 \<le> length phy"
  shows "ConvertPHY_191 checksum phy =
           Some (\<lparr> size_f = 20, id_f = 1, solidCount = 1, checkSum = checksum,
                   keyValuesOffset =
                     ucast (ucast (phy ! 2) OR push_bit 8 (ucast (phy ! 3)) :: 16 word) + 16 \<rparr>,
                 [20, 0, 0, 0, 1, 0, 0, 0, 1, 0, 0, 0]
                 @ [ucast checksum, ucast (drop_bit 8 checksum), ucast (drop_bit 16 checksum),
                    ucast (drop_bit 24 checksum)]
                 @ le32 (ucast (ucast (phy ! 2) OR push_bit 8 (ucast (phy ! 3)) :: 16 word) + 16)
                 @ drop 4 phy)"
  using assms
  by (simp add: ConvertPHY_191_def read_u16_def IVPSHeader_bytes_def le32_const Let_def)
     (simp add: le32_def)

lemma write_at_end: "length file = pos \<Longrightarrow> write_at file pos bytes = file @ bytes"
  by (simp add: write_at_def)

lemma phySize_patch_kept:
  assumes "phySizeOffset + 4 \<le> flushed" and "flushed \<le> length arena"
  shows "rmdl_file_at_exit True phySizeOffset arena flushed phy =
           take phySizeOffset arena @ le32 (phySizeValue phy) @ drop (phySizeOffset + 4) arena"
proof -
  let ?d = "take flushed arena" and ?w = "le32 (phySizeValue phy)"
  have b: "phySizeOffset + length ?w \<le> length ?d" using assms by simp
  have p: "UpdatePhySize True phySizeOffset ?d (phySizeValue phy)
             = take phySizeOffset ?d @ ?w @ drop (phySizeOffset + 4) ?d"
    using write_at_inside(1) [OF b] by (simp add: UpdatePhySize_def)
  have t: "take phySizeOffset ?d = take phySizeOffset arena" using assms by (simp add: min_def)
  have lp: "length (take phySizeOffset arena @ ?w @ drop (phySizeOffset + 4) ?d) = flushed"
    using assms by simp
  have k: "drop (phySizeOffset + 4) ?d @ drop flushed arena = drop (phySizeOffset + 4) arena"
  proof -
    have "drop (phySizeOffset + 4) arena = drop (phySizeOffset + 4) (?d @ drop flushed arena)"
      by (simp only: append_take_drop_id)
    also have "\<dots> = drop (phySizeOffset + 4) ?d @ drop flushed arena"
      unfolding drop_append using assms by simp
    finally show ?thesis by (rule sym)
  qed
  show ?thesis
  proof (cases "drop flushed arena = []")
    case True
    then have e: "take flushed arena = arena" by simp
    have "UpdatePhySize True phySizeOffset arena (phySizeValue phy)
            = take phySizeOffset arena @ ?w @ drop (phySizeOffset + 4) arena"
      using p unfolding e .
    then show ?thesis using True by (simp add: rmdl_file_at_exit_def Let_def e)
  next
    case False
    have "write_at (take phySizeOffset arena @ ?w @ drop (phySizeOffset + 4) ?d) flushed
            (drop flushed arena)
          = (take phySizeOffset arena @ ?w @ drop (phySizeOffset + 4) ?d) @ drop flushed arena"
      using lp by (rule write_at_end)
    then show ?thesis
      using False assms k by (simp add: rmdl_file_at_exit_def Let_def p t min_def)
  qed
qed

text \<open>
  Once the header of the model has reached the file before the update, the field reads
  back as the size of the physics output, the input size plus 16.
\<close>

lemma phySize_field_kept:
  assumes "phySizeOffset + 4 \<le> flushed" and "flushed \<le> length arena"
  shows "read_u32 (rmdl_file_at_exit True phySizeOffset arena flushed phy) phySizeOffset
           = word_of_nat (length phy) + 16"
proof -
  have l: "length (take phySizeOffset arena) = phySizeOffset" using assms by simp
  show ?thesis
    unfolding phySize_patch_kept [OF assms] phySizeValue_eq [symmetric]
    using read_u32_le32 [of "take phySizeOffset arena" "phySizeValue phy"
        "drop (phySizeOffset + 4) arena"]
    by (simp only: l)
qed

lemma write_at_over:
  assumes "length file \<le> pos + length bytes" and "pos \<le> length file"
  shows "write_at file pos bytes = take pos file @ bytes"
  using assms by (simp add: write_at_def)

lemma phySize_patch_lost:
  assumes "flushed \<le> phySizeOffset" and "phySizeOffset + 4 \<le> length arena"
  shows "rmdl_file_at_exit is_open phySizeOffset arena flushed phy = arena"
proof -
  let ?d = "take flushed arena" and ?w = "le32 (phySizeValue phy)"
  let ?U = "UpdatePhySize is_open phySizeOffset ?d (phySizeValue phy)"
  have ld: "length ?d = flushed" using assms by simp
  have ne: "drop flushed arena \<noteq> []" using assms by simp
  have u: "?U = ?d \<or> ?U = ?d @ replicate (phySizeOffset - flushed) 0 @ ?w"
    using assms by (simp add: UpdatePhySize_def write_at_def ld)
  have lu: "length ?U \<le> flushed + length (drop flushed arena)" "flushed \<le> length ?U"
    using u assms ld by auto
  have tu: "take flushed ?U = ?d" using u ld by auto
  have "write_at ?U flushed (drop flushed arena) = take flushed ?U @ drop flushed arena"
    using lu by (rule write_at_over)
  then have "write_at ?U flushed (drop flushed arena) = arena"
    by (simp only: tu append_take_drop_id)
  then show ?thesis using ne by (simp add: rmdl_file_at_exit_def Let_def ld)
qed

text \<open>
  Claim C9 asks for the 20-byte header (size 20, id 1, solid count 1, the model's
  checksum, the source key-values offset plus 16) followed by the source bytes from
  offset 4 on, and for the \<^verbatim>\<open>phySize\<close> field of the written model file to hold the
  size of the physics output afterwards. On the six-byte physics file of the examples the
  header and the payload are as asked and the size is 22. The field of the model file keeps its
  zero when the stream that wrote the model still holds the model's bytes at the time of
  the update: they are written over the update when the stream is closed. Had all eight
  bytes reached the file before, the field would hold 22.
\<close>

theorem physics_size_patch_lost:
  "ConvertPHY_191 0xDEADBEEF example_phy =
     Some (\<lparr> size_f = 20, id_f = 1, solidCount = 1, checkSum = 0xDEADBEEF,
             keyValuesOffset = 32 \<rparr>,
           [20, 0, 0, 0, 1, 0, 0, 0, 1, 0, 0, 0, 0xEF, 0xBE, 0xAD, 0xDE, 32, 0, 0, 0, 170, 187])
   \<and> phySizeValue example_phy = 22
   \<and> rmdl_file_at_exit True 4 example_rmdl 0 example_phy = [73, 68, 83, 84, 0, 0, 0, 0]
   \<and> rmdl_file_at_exit True 4 example_rmdl 8 example_phy = [73, 68, 83, 84, 22, 0, 0, 0]"
proof -
  have a: "ConvertPHY_191 0xDEADBEEF example_phy =
     Some (\<lparr> size_f = 20, id_f = 1, solidCount = 1, checkSum = 0xDEADBEEF,
             keyValuesOffset = 32 \<rparr>,
           [20, 0, 0, 0, 1, 0, 0, 0, 1, 0, 0, 0, 0xEF, 0xBE, 0xAD, 0xDE, 32, 0, 0, 0, 170, 187])"
    by (simp add: ConvertPHY_191_def read_u16_def example_phy_def IVPSHeader_bytes_def le32_def
        drop_bit_eq_div)
  have b: "phySizeValue example_phy = 22"
    by (simp add: phySizeValue_eq example_phy_def)
  have l22: "le32 22 = [22, 0, 0, 0]" by (simp add: le32_def drop_bit_eq_div)
  have c: "rmdl_file_at_exit True 4 example_rmdl 0 example_phy = [73, 68, 83, 84, 0, 0, 0, 0]"
    using phySize_patch_lost [of 0 4 example_rmdl True example_phy]
    by (simp add: example_rmdl_def)
  have d: "rmdl_file_at_exit True 4 example_rmdl 8 example_phy = [73, 68, 83, 84, 22, 0, 0, 0]"
    using phySize_patch_kept [of 4 8 example_rmdl example_phy]
    by (simp add: example_rmdl_def b l22)
  from a b c d show ?thesis by blast
qed

subsection \<open>Collision buffer lengths\<close>

lemma sint_sub_nonneg:
  fixes a b :: "32 word"
  assumes "0 \<le> sint a" and "0 \<le> sint b"
  shows "sint (b - a) = sint b - sint a"
proof -
  have "sint a < 2 ^ 31" "sint b < 2 ^ 31"
    using sint_lt [of a] sint_lt [of b] by simp_all
  then have "- (2 ^ 31) \<le> sint b - sint a" "sint b - sint a < 2 ^ 31"
    using assms by simp_all
  then have "signed_take_bit 31 (sint b - sint a) = sint b - sint a"
    by (intro signed_take_bit_int_eq_self) simp_all
  then show ?thesis by (simp add: sint_word_ariths)
qed

lemma offsets_nonneg_nth:
  "offsets_nonneg hs \<Longrightarrow> i < length hs \<Longrightarrow>
     0 \<le> sint (ch_vertsOfs (hs ! i)) \<and> 0 \<le> sint (ch_leafDataOfs (hs ! i))
     \<and> 0 \<le> sint (ch_nodesOfs (hs ! i))"
  by (simp add: offsets_nonneg_def list_all_length)

lemma last_node_size:
  fixes n :: "32 word"
  assumes "0 \<le> sint n" and "collisionOffset + nat (sint n) \<le> fileSize" and "fileSize < 2 ^ 63"
  shows "sint (word_of_nat fileSize - word_of_nat collisionOffset - scast n :: 64 word)
           = int fileSize - int collisionOffset - sint n"
proof -
  let ?r = "int fileSize - int collisionOffset - sint n"
  have "int fileSize < int (2 ^ 63)" using assms(3) by (simp only: of_nat_less_iff)
  then have f: "int fileSize < 2 ^ 63" by simp
  have r0: "0 \<le> ?r" using assms(1,2) by linarith
  have "?r \<le> int fileSize" using assms(1) by simp
  then have r1: "?r < 2 ^ 63" using f by (rule le_less_trans)
  have "(scast n :: 64 word) = word_of_int (sint n)" by (rule scast_eq)
  then have "(word_of_nat fileSize - word_of_nat collisionOffset - scast n :: 64 word)
          = word_of_int ?r"
    by simp
  moreover have "sint (word_of_int ?r :: 64 word) = ?r"
  proof -
    have "- (2 ^ 63) \<le> (0::int)" by simp
    then have "- (2 ^ 63) \<le> ?r" using r0 by (rule order_trans)
    then have "signed_take_bit 63 ?r = ?r"
      using r1 by (intro signed_take_bit_int_eq_self) simp_all
    moreover have "sint (word_of_int k :: 64 word) = signed_take_bit 63 k" for k
      by (simp add: signed_of_int)
    ultimately show ?thesis by (simp only:)
  qed
  ultimately show ?thesis by (simp only:)
qed

text \<open>
  Claim C3, as amended. In a collision model whose section offsets are non-negative, the
  inferred buffer lengths of a header are: for the vertices, the header's own leaf offset
  minus its own vertex offset; for the leaves, the next header's vertex offset minus the
  header's leaf offset, and for the last header the first header's node offset minus its
  leaf offset; for the nodes, the next header's node offset minus the header's node
  offset, and for the last header the space from its nodes to the end of the file,
  clamped to one MiB.
\<close>

theorem collision_buffer_lengths:
  assumes "offsets_nonneg hs" and "i < length hs"
  shows "vertSize hs i = sint (ch_leafDataOfs (hs ! i)) - sint (ch_vertsOfs (hs ! i))
       \<and> (i + 1 < length hs \<longrightarrow>
            leafSize hs i = sint (ch_vertsOfs (hs ! (i + 1))) - sint (ch_leafDataOfs (hs ! i))
          \<and> nodeSize hs fileSize collisionOffset i
              = sint (ch_nodesOfs (hs ! (i + 1))) - sint (ch_nodesOfs (hs ! i)))
       \<and> (i + 1 = length hs \<longrightarrow>
            leafSize hs i = sint (ch_nodesOfs (hs ! 0)) - sint (ch_leafDataOfs (hs ! i))
          \<and> (collisionOffset + nat (sint (ch_nodesOfs (hs ! i))) \<le> fileSize
               \<and> fileSize < 2 ^ 63 \<longrightarrow>
              nodeSize hs fileSize collisionOffset i
                = min (int fileSize - int collisionOffset - sint (ch_nodesOfs (hs ! i)))
                      (1024 * 1024)))"
proof -
  note nn = offsets_nonneg_nth [OF assms(1)]
  have v: "vertSize hs i = sint (ch_leafDataOfs (hs ! i)) - sint (ch_vertsOfs (hs ! i))"
    using nn [OF assms(2)]
      sint_sub_nonneg [of "ch_vertsOfs (hs ! i)" "ch_leafDataOfs (hs ! i)"]
    by (simp add: vertSize_def Let_def)
  have mid: "leafSize hs i = sint (ch_vertsOfs (hs ! (i + 1))) - sint (ch_leafDataOfs (hs ! i))
         \<and> nodeSize hs fileSize collisionOffset i
             = sint (ch_nodesOfs (hs ! (i + 1))) - sint (ch_nodesOfs (hs ! i))"
    if "i + 1 < length hs"
  proof -
    have ne: "int i \<noteq> int (length hs) - 1" using that by linarith
    have "Suc i < length hs" using that by simp
    note nx = nn [OF this]
    show ?thesis
      using nn [OF assms(2)] nx ne
        sint_sub_nonneg [of "ch_leafDataOfs (hs ! i)" "ch_vertsOfs (hs ! Suc i)"]
        sint_sub_nonneg [of "ch_nodesOfs (hs ! i)" "ch_nodesOfs (hs ! Suc i)"]
      by (simp add: leafSize_def nodeSize_def Let_def)
  qed
  have lastleaf: "leafSize hs i = sint (ch_nodesOfs (hs ! 0)) - sint (ch_leafDataOfs (hs ! i))"
    if "i + 1 = length hs"
  proof -
    have e: "int i = int (length hs) - 1" using that by linarith
    have z: "0 < length hs" using assms(2) by (cases hs) simp_all
    show ?thesis
      using nn [OF assms(2)] nn [OF z] e
        sint_sub_nonneg [of "ch_leafDataOfs (hs ! i)" "ch_nodesOfs (hs ! 0)"]
      by (simp add: leafSize_def Let_def)
  qed
  have lastnode: "nodeSize hs fileSize collisionOffset i
             = min (int fileSize - int collisionOffset - sint (ch_nodesOfs (hs ! i))) (1024 * 1024)"
    if "i + 1 = length hs"
      and "collisionOffset + nat (sint (ch_nodesOfs (hs ! i))) \<le> fileSize"
      and "fileSize < 2 ^ 63"
  proof -
    have e: "int i = int (length hs) - 1" using that(1) by linarith
    have n0: "0 \<le> sint (ch_nodesOfs (hs ! i))" using nn [OF assms(2)] by simp
    show ?thesis
      using e last_node_size [OF n0 that(2) that(3)]
      by (simp add: nodeSize_def Let_def min_def)
  qed
  show ?thesis using v mid lastleaf lastnode by blast
qed

lemma example_collheaders_nonneg: "offsets_nonneg example_collheaders"
  by (simp add: offsets_nonneg_def example_collheaders_def)

theorem collision_buffer_lengths_witness:
  "vertSize example_collheaders 0 = 64
   \<and> leafSize example_collheaders 0 = 64
   \<and> nodeSize example_collheaders 1000 100 0 = 64
   \<and> vertSize example_collheaders 1 = 64
   \<and> leafSize example_collheaders 1 = 256
   \<and> nodeSize example_collheaders 1000 100 1 = 324"
proof -
  have l0: "0 < length example_collheaders" and l1: "1 < length example_collheaders"
    by (simp_all add: example_collheaders_def)
  have a: "(100::nat) + nat (sint (ch_nodesOfs (example_collheaders ! 1))) \<le> 1000"
    by (simp add: example_collheaders_def)
  have b: "(1000::nat) < 2 ^ 63" by simp
  have len: "length example_collheaders = 2" by (simp add: example_collheaders_def)
  show ?thesis
    using collision_buffer_lengths [OF example_collheaders_nonneg l0,
        where fileSize = 1000 and collisionOffset = 100]
      collision_buffer_lengths [OF example_collheaders_nonneg l1,
        where fileSize = 1000 and collisionOffset = 100] a b
    by (simp add: len) (simp add: example_collheaders_def)
qed

text \<open>
  The claim as stated (each length is the gap to the next header's corresponding offset)
  fails for vertices and leaves: with two headers at increasing offsets, the first
  header's vertex length is 64 while its vertex offset is 128 before the next header's,
  and likewise for the leaves.
\<close>

theorem collision_buffer_lengths_counterexample:
  "vertSize example_collheaders 0
     \<noteq> sint (ch_vertsOfs (example_collheaders ! 1)) - sint (ch_vertsOfs (example_collheaders ! 0))
   \<and> leafSize example_collheaders 0
     \<noteq> sint (ch_leafDataOfs (example_collheaders ! 1))
         - sint (ch_leafDataOfs (example_collheaders ! 0))"
  by (simp add: vertSize_def leafSize_def example_collheaders_def)

subsection \<open>Procedural bones\<close>

lemma read_bytes_length [simp]: "length (read_bytes m a n) = n"
  by (simp add: read_bytes_def)

lemma copy_jiggles_length:
  "length (fst (copy_jiggles L m olds bs ps (bones, written, p))) = length bones"
  by (induction ps arbitrary: bones written p) (simp_all add: Let_def)

lemma copy_jiggles_other:
  "i \<notin> set ps \<Longrightarrow> fst (copy_jiggles L m olds bs ps (bones, written, p)) ! i = bones ! i"
  by (induction ps arbitrary: bones written p) (auto simp: Let_def)

lemma copy_jiggles_proctype:
  "i < length bones \<Longrightarrow>
   nb_proctype (fst (copy_jiggles L m olds bs ps (bones, written, p)) ! i) = nb_proctype (bones ! i)"
proof (induction ps arbitrary: bones written p)
  case Nil
  then show ?case by simp
next
  case (Cons b rest)
  let ?bones = "bones[b := (bones ! b) \<lparr> nb_procindex :=
                   word_of_nat (p - (bs + b * sizeof_mstudiobone L)) \<rparr>]"
  have "nb_proctype (?bones ! i) = nb_proctype (bones ! i)"
    using Cons.prems by (cases "i = b") simp_all
  moreover have "i < length ?bones" using Cons.prems by simp
  ultimately show ?case using Cons.IH [of ?bones] by (simp add: Let_def)
qed

lemma copy_jiggles_written:
  "fst (snd (copy_jiggles L m olds bs ps (bones, written, p)))
     = written @ concat (map (\<lambda>b. read_bytes m (jiggle_src L olds b) (sizeof_mstudiojigglebone L)) ps)"
  by (induction ps arbitrary: bones written p) (simp_all add: Let_def jiggle_src_def)

lemma copy_jiggles_pData:
  "snd (snd (copy_jiggles L m olds bs ps (bones, written, p)))
     = p + length ps * sizeof_mstudiojigglebone L"
  by (induction ps arbitrary: bones written p) (simp_all add: Let_def)

lemma copy_jiggles_procindex:
  "distinct ps \<Longrightarrow> k < length ps \<Longrightarrow> ps ! k < length bones \<Longrightarrow>
   nb_procindex (fst (copy_jiggles L m olds bs ps (bones, written, p)) ! (ps ! k))
     = word_of_nat (p + k * sizeof_mstudiojigglebone L - (bs + (ps ! k) * sizeof_mstudiobone L))"
proof (induction ps arbitrary: bones written p k)
  case Nil
  then show ?case by simp
next
  case (Cons b rest)
  let ?bones = "bones[b := (bones ! b) \<lparr> nb_procindex :=
                   word_of_nat (p - (bs + b * sizeof_mstudiobone L)) \<rparr>]"
  let ?w = "written @ read_bytes m (bd_addr (olds ! b) + FIX_OFFSET L (unat (bd_procindex (olds ! b))))
              (sizeof_mstudiojigglebone L)"
  have step: "copy_jiggles L m olds bs (b # rest) (bones, written, p)
        = copy_jiggles L m olds bs rest (?bones, ?w, p + sizeof_mstudiojigglebone L)"
    by (simp add: Let_def)
  show ?case
  proof (cases k)
    case 0
    have "b \<notin> set rest" using Cons.prems(1) by simp
    then have "fst (copy_jiggles L m olds bs rest (?bones, ?w, p + sizeof_mstudiojigglebone L)) ! b
                 = ?bones ! b"
      by (rule copy_jiggles_other)
    moreover have "b < length bones" using Cons.prems(3) 0 by simp
    ultimately show ?thesis using 0 by (simp add: step del: copy_jiggles.simps)
  next
    case (Suc j)
    have d: "distinct rest" using Cons.prems(1) by simp
    have j: "j < length rest" using Cons.prems(2) Suc by simp
    have b: "rest ! j < length ?bones" using Cons.prems(3) Suc by simp
    from Cons.IH [OF d j b, of ?w "p + sizeof_mstudiojigglebone L"]
    show ?thesis using Suc by (simp add: step algebra_simps del: copy_jiggles.simps)
  qed
qed

lemma concat_blocks_nth:
  "(\<And>x. length (f x) = n) \<Longrightarrow> k < length xs \<Longrightarrow>
   take n (drop (k * n) (concat (map f xs))) = f (xs ! k)"
proof (induction xs arbitrary: k)
  case Nil
  then show ?case by simp
next
  case (Cons x xs)
  show ?case
  proof (cases k)
    case 0
    then show ?thesis using Cons.prems(1) [of x] by simp
  next
    case (Suc j)
    then have "j < length xs" using Cons.prems(2) by simp
    from Cons.IH [OF Cons.prems(1) this]
    show ?thesis using Suc Cons.prems(1) [of x] by simp
  qed
qed


lemma ALIGN4_ge: "p \<le> ALIGN4 p"
  unfolding ALIGN4_def by presburger

lemma ucast_8_32_eq_5: "((ucast (c :: 8 word) :: 32 word) = 5) = (c = 5)"
proof
  assume "(ucast c :: 32 word) = 5"
  then have "uint (ucast c :: 32 word) = 5" by simp
  then have "uint c = uint (5 :: 8 word)" by (simp add: uint_ucast_8_32)
  then show "c = 5" by (simp only: word_uint_eq_iff)
next
  assume "c = 5"
  then show "(ucast c :: 32 word) = 5" by simp
qed

lemma ConvertBone_191_cases:
  "bd_proctype b = 5 \<Longrightarrow> nb_proctype (ConvertBone_191 b) = 5"
  "bd_proctype b \<noteq> 5 \<Longrightarrow> bd_proctype b \<noteq> 0 \<Longrightarrow>
     nb_proctype (ConvertBone_191 b) = 0 \<and> nb_procindex (ConvertBone_191 b) = 0"
  by (simp_all add: ConvertBone_191_def Let_def STUDIO_PROC_JIGGLE_def ucast_8_32_eq_5
      word_neq_0_conv)

lemma proceduralBones_set:
  "set (proceduralBones olds) = {i. i < length olds \<and> bd_proctype (olds ! i) = 5}"
  by (auto simp: proceduralBones_def STUDIO_PROC_JIGGLE_def ucast_8_32_eq_5)

lemma proceduralBones_distinct: "distinct (proceduralBones olds)"
  by (simp add: proceduralBones_def)

lemma ConvertBones_191_fields:
  fixes L m olds bs
  defines "js \<equiv> ALIGN4 (bs + length olds * sizeof_mstudiobone L)"
  defines "st \<equiv> copy_jiggles L m olds bs (proceduralBones olds) (map ConvertBone_191 olds, [], js)"
  shows "newBones (ConvertBones_191 L m olds bs) = fst st"
    and "jiggleBytes (ConvertBones_191 L m olds bs) = fst (snd st)"
    and "jiggleStart (ConvertBones_191 L m olds bs) = js"
    and "js + length (proceduralBones olds) * sizeof_mstudiojigglebone L
           \<le> pDataAfter (ConvertBones_191 L m olds bs)"
proof -
  obtain bones written p' where c: "st = (bones, written, p')"
    by (cases st) auto
  have p': "p' = js + length (proceduralBones olds) * sizeof_mstudiojigglebone L"
    using copy_jiggles_pData [of L m olds bs "proceduralBones olds" "map ConvertBone_191 olds" "[]" js]
    by (simp add: c st_def [symmetric])
  show "newBones (ConvertBones_191 L m olds bs) = fst st"
  proof (cases "proceduralBones olds = []")
    case True
    then show ?thesis by (simp add: ConvertBones_191_def Let_def st_def js_def)
  next
    case False
    then show ?thesis using c
      by (simp add: ConvertBones_191_def Let_def st_def [symmetric] js_def [symmetric])
  qed
  show "jiggleBytes (ConvertBones_191 L m olds bs) = fst (snd st)"
  proof (cases "proceduralBones olds = []")
    case True
    then show ?thesis by (simp add: ConvertBones_191_def Let_def st_def js_def)
  next
    case False
    then show ?thesis using c
      by (simp add: ConvertBones_191_def Let_def st_def [symmetric] js_def [symmetric])
  qed
  show "jiggleStart (ConvertBones_191 L m olds bs) = js"
  proof (cases "proceduralBones olds = []")
    case True
    then show ?thesis by (simp add: ConvertBones_191_def Let_def st_def js_def)
  next
    case False
    then show ?thesis using c
      by (simp add: ConvertBones_191_def Let_def st_def [symmetric] js_def [symmetric])
  qed
  show "js + length (proceduralBones olds) * sizeof_mstudiojigglebone L
           \<le> pDataAfter (ConvertBones_191 L m olds bs)"
  proof (cases "proceduralBones olds = []")
    case True
    then show ?thesis by (simp add: ConvertBones_191_def Let_def st_def js_def)
  next
    case False
    then have "pDataAfter (ConvertBones_191 L m olds bs) = ALIGN4 p'" using c
      by (simp add: ConvertBones_191_def Let_def st_def [symmetric] js_def [symmetric])
    then show ?thesis using ALIGN4_ge [of p'] p' by simp
  qed
qed

text \<open>
  Claim C7. Every source bone yields one converted bone. A bone whose procedural type is
  non-zero and not jiggle (5) has its converted procedural type and procedural offset set
  to zero. A jiggle bone keeps type 5, and, when the writes stay inside the 32 MiB arena,
  the arena bytes at the position its converted procedural offset points to (relative to
  the converted bone) are the jiggle record of the source.
\<close>

theorem procedural_bone_demotion:
  assumes "i < length olds"
  shows "length (newBones (ConvertBones_191 L m olds bs)) = length olds
       \<and> (bd_proctype (olds ! i) \<noteq> 0 \<and> bd_proctype (olds ! i) \<noteq> 5 \<longrightarrow>
            nb_proctype (newBones (ConvertBones_191 L m olds bs) ! i) = 0
          \<and> nb_procindex (newBones (ConvertBones_191 L m olds bs) ! i) = 0)
       \<and> (bd_proctype (olds ! i) = 5 \<longrightarrow>
            nb_proctype (newBones (ConvertBones_191 L m olds bs) ! i) = 5
          \<and> (pDataAfter (ConvertBones_191 L m olds bs) \<le> FILEBUFSIZE \<longrightarrow>
               take (sizeof_mstudiojigglebone L)
                 (drop (bs + i * sizeof_mstudiobone L
                          + unat (nb_procindex (newBones (ConvertBones_191 L m olds bs) ! i))
                          - jiggleStart (ConvertBones_191 L m olds bs))
                    (jiggleBytes (ConvertBones_191 L m olds bs)))
               = read_bytes m (jiggle_src L olds i) (sizeof_mstudiojigglebone L)))"
proof -
  let ?R = "ConvertBones_191 L m olds bs"
  let ?ps = "proceduralBones olds"
  let ?js = "ALIGN4 (bs + length olds * sizeof_mstudiobone L)"
  let ?J = "sizeof_mstudiojigglebone L"
  let ?bones0 = "map ConvertBone_191 olds"
  note f = ConvertBones_191_fields [where L = L and m = m and olds = olds and bs = bs]
  have len: "length (newBones ?R) = length olds"
    by (simp add: f(1) copy_jiggles_length)
  have i0: "i < length ?bones0" using assms by simp
  have pt: "nb_proctype (newBones ?R ! i) = nb_proctype (ConvertBone_191 (olds ! i))"
    using copy_jiggles_proctype [OF i0, of L m olds bs ?ps "[]" ?js] assms by (simp add: f(1))
  have demote: "nb_proctype (newBones ?R ! i) = 0 \<and> nb_procindex (newBones ?R ! i) = 0"
    if "bd_proctype (olds ! i) \<noteq> 0" "bd_proctype (olds ! i) \<noteq> 5"
  proof -
    have "i \<notin> set ?ps" using that(2) by (simp add: proceduralBones_set)
    then have "newBones ?R ! i = ?bones0 ! i"
      by (simp add: f(1) copy_jiggles_other)
    then show ?thesis using ConvertBone_191_cases(2) [OF that(2) that(1)] assms by simp
  qed
  have keep: "nb_proctype (newBones ?R ! i) = 5" if "bd_proctype (olds ! i) = 5"
    using pt ConvertBone_191_cases(1) [OF that] by simp
  have payload: "take ?J (drop (bs + i * sizeof_mstudiobone L
                          + unat (nb_procindex (newBones ?R ! i)) - jiggleStart ?R)
                    (jiggleBytes ?R))
               = read_bytes m (jiggle_src L olds i) ?J"
    if j: "bd_proctype (olds ! i) = 5" and arena: "pDataAfter ?R \<le> FILEBUFSIZE"
  proof -
    have "i \<in> set ?ps" using j assms by (simp add: proceduralBones_set)
    then obtain k where k: "k < length ?ps" "?ps ! k = i"
      by (auto simp: in_set_conv_nth)
    have ib: "?ps ! k < length ?bones0" using k(2) assms by simp
    have pi: "nb_procindex (newBones ?R ! i)
                = word_of_nat (?js + k * ?J - (bs + i * sizeof_mstudiobone L))"
      using copy_jiggles_procindex [OF proceduralBones_distinct k(1) ib, of L m olds bs "[]" ?js]
      by (simp add: f(1) k(2))
    have lo: "bs + i * sizeof_mstudiobone L \<le> ?js"
    proof -
      have "i * sizeof_mstudiobone L \<le> length olds * sizeof_mstudiobone L"
        using assms by simp
      then have "bs + i * sizeof_mstudiobone L \<le> bs + length olds * sizeof_mstudiobone L"
        by simp
      also have "\<dots> \<le> ?js" by (rule ALIGN4_ge)
      finally show ?thesis .
    qed
    have "k * ?J \<le> length ?ps * ?J" using k(1) by simp
    then have hi: "?js + k * ?J \<le> FILEBUFSIZE" using f(4) arena by linarith
    let ?d = "?js + k * ?J - (bs + i * sizeof_mstudiobone L)"
    have "?d \<le> FILEBUFSIZE" using hi by linarith
    then have "?d < 2 ^ 32" by (simp add: FILEBUFSIZE_def)
    then have "unat (word_of_nat ?d :: 32 word) = ?d"
      by (simp add: unat_of_nat)
    then have "bs + i * sizeof_mstudiobone L + unat (nb_procindex (newBones ?R ! i)) - jiggleStart ?R
                 = k * ?J"
      using lo by (simp add: pi f(3))
    moreover have "jiggleBytes ?R
                     = concat (map (\<lambda>b. read_bytes m (jiggle_src L olds b) ?J) ?ps)"
      by (simp add: f(2) copy_jiggles_written)
    ultimately show ?thesis
      using concat_blocks_nth [of "\<lambda>b. read_bytes m (jiggle_src L olds b) ?J" ?J k ?ps] k
      by simp
  qed
  show ?thesis using len demote keep payload by blast
qed


lemma read_bytes_4: "read_bytes m a 4 = [m a, m (a + 1), m (a + 2), m (a + 3)]"
proof -
  have "[0..<4::nat] = [0, 1, 2, 3]" by code_simp
  then show ?thesis by (simp add: read_bytes_def)
qed

lemma example_bones_result:
  "ConvertBones_191 example_layout example_mem example_bones 0 =
     \<lparr> newBones =
         [\<lparr> nb_parent = - 1, nb_flags = 0x400, nb_proctype = 0, nb_procindex = 0,
             nb_collisionIndex = - 1 \<rparr>,
          \<lparr> nb_parent = 0, nb_flags = 0, nb_proctype = 5, nb_procindex = 360,
             nb_collisionIndex = 0 \<rparr>,
          \<lparr> nb_parent = 1, nb_flags = 0, nb_proctype = 0, nb_procindex = 0,
             nb_collisionIndex = 1 \<rparr>],
       jiggleStart = 540, jiggleBytes = [108, 109, 110, 111], pDataAfter = 544 \<rparr>"
  by (simp add: ConvertBones_191_def proceduralBones_def example_bones_def example_layout_def
      example_mem_def ConvertBone_191_def TranslateBoneFlags_191_def
      V10_BONE_USED_BY_BONE_MERGE_def STUDIO_PROC_JIGGLE_def ALIGN4_def Let_def
      read_bytes_4 upt_rec [of 0] upt_rec [of 1] upt_rec [of 2] upt_rec [of 3])

theorem procedural_bone_demotion_witness:
  "nb_proctype (newBones (ConvertBones_191 example_layout example_mem example_bones 0) ! 2) = 0
   \<and> nb_procindex (newBones (ConvertBones_191 example_layout example_mem example_bones 0) ! 2) = 0
   \<and> nb_proctype (newBones (ConvertBones_191 example_layout example_mem example_bones 0) ! 1) = 5
   \<and> take 4 (drop (0 + 1 * 180
                + unat (nb_procindex
                     (newBones (ConvertBones_191 example_layout example_mem example_bones 0) ! 1))
                - jiggleStart (ConvertBones_191 example_layout example_mem example_bones 0))
          (jiggleBytes (ConvertBones_191 example_layout example_mem example_bones 0)))
       = read_bytes example_mem 108 4"
proof -
  have l1: "1 < length example_bones" and l2: "2 < length example_bones"
    by (simp_all add: example_bones_def)
  have t1: "bd_proctype (example_bones ! 1) = 5" by (simp add: example_bones_def)
  have t2: "bd_proctype (example_bones ! 2) \<noteq> 0 \<and> bd_proctype (example_bones ! 2) \<noteq> 5"
    by (simp add: example_bones_def)
  have a: "pDataAfter (ConvertBones_191 example_layout example_mem example_bones 0) \<le> FILEBUFSIZE"
    by (simp add: example_bones_result FILEBUFSIZE_def)
  have s: "jiggle_src example_layout example_bones (Suc 0) = 108"
    by (simp add: jiggle_src_def example_bones_def example_layout_def)
  have z: "sizeof_mstudiojigglebone example_layout = 4" "sizeof_mstudiobone example_layout = 180"
    by (simp_all add: example_layout_def)
  show ?thesis
    using procedural_bone_demotion [OF l1, of example_layout example_mem 0]
      procedural_bone_demotion [OF l2, of example_layout example_mem 0] t1 t2 a
    by (simp add: s z)
qed

subsection \<open>Bone-state table recovery\<close>

lemma fold_insert_set: "set (fold List.insert xs u) = set xs \<union> set u"
  by (induction xs arbitrary: u) auto

lemma fold_insert_distinct: "distinct u \<Longrightarrow> distinct (fold List.insert xs u)"
  by (induction xs arbitrary: u) auto

lemma fold_insert_length_iff:
  "length (fold List.insert xs []) = length xs \<longleftrightarrow> distinct xs"
proof -
  have d: "distinct (fold List.insert xs [])" by (rule fold_insert_distinct) simp
  have "length (fold List.insert xs []) = card (set (fold List.insert xs []))"
    using d by (simp add: distinct_card)
  also have "\<dots> = card (set xs)" by (simp add: fold_insert_set)
  finally have "length (fold List.insert xs []) = card (set xs)" .
  then show ?thesis by (auto simp: distinct_card dest: card_distinct)
qed

lemma unique_scan_valid:
  "fst (unique_scan m p tb idxs u) \<longleftrightarrow> (\<forall>i \<in> set idxs. ucast (m (p + i)) < tb)"
  by (induction idxs arbitrary: u) (auto simp: not_le)

lemma unique_scan_set:
  "fst (unique_scan m p tb idxs u) \<Longrightarrow>
   snd (unique_scan m p tb idxs u) = fold List.insert (map (\<lambda>i. m (p + i)) idxs) u"
  by (induction idxs arbitrary: u) (auto split: if_splits)

lemma list_all_read_bytes:
  "list_all P (read_bytes m p n) \<longleftrightarrow> (\<forall>i \<in> set [0..<n]. P (m (p + i)))"
  by (simp add: read_bytes_def list_all_iff)

lemma run_ok_iff: "run_ok m p n tb \<longleftrightarrow> valid_table (read_bytes m p n) tb"
proof -
  obtain v u where s: "unique_scan m p tb [0..<n] [] = (v, u)"
    by (cases "unique_scan m p tb [0..<n] []")
  have v: "v \<longleftrightarrow> (\<forall>i \<in> set [0..<n]. ucast (m (p + i)) < tb)"
    using unique_scan_valid [of m p tb "[0..<n]" "[]"] s by simp
  show ?thesis
  proof (cases v)
    case True
    then have "u = fold List.insert (read_bytes m p n) []"
      using unique_scan_set [of m p tb "[0..<n]" "[]"] s by (simp add: read_bytes_def)
    then have "length u = n \<longleftrightarrow> distinct (read_bytes m p n)"
      using fold_insert_length_iff [of "read_bytes m p n"] by simp
    then show ?thesis
      using True v by (simp add: run_ok_def s valid_table_def list_all_read_bytes)
  next
    case False
    then have "\<not> (\<forall>i \<in> set [0..<n]. ucast (m (p + i)) < tb)" using v by simp
    then have "\<not> valid_table (read_bytes m p n) tb"
      by (simp add: valid_table_def list_all_read_bytes)
    moreover have "\<not> run_ok m p n tb" using False by (simp add: run_ok_def s)
    ultimately show ?thesis by simp
  qed
qed

lemma header_scan_false:
  "header_scan m p bc idxs False u = (False, u)"
  by (cases idxs) simp_all

lemma header_scan_valid:
  "fst (header_scan m p bc idxs True u) \<longleftrightarrow> (\<forall>i \<in> set idxs. ucast (m (p + i)) < bc)"
proof (induction idxs arbitrary: u)
  case Nil
  then show ?case by simp
next
  case (Cons i rest)
  show ?case
  proof (cases "ucast (m (p + i)) \<ge> bc")
    case True
    then show ?thesis by (auto simp: header_scan_false not_le)
  next
    case False
    then show ?thesis using Cons.IH by (auto simp: not_le)
  qed
qed

lemma header_scan_set:
  "fst (header_scan m p bc idxs True u) \<Longrightarrow>
   snd (header_scan m p bc idxs True u) = fold List.insert (map (\<lambda>i. m (p + i)) idxs) u"
proof (induction idxs arbitrary: u)
  case Nil
  then show ?case by simp
next
  case (Cons i rest)
  show ?case
  proof (cases "ucast (m (p + i)) \<ge> bc")
    case True
    then show ?thesis using Cons.prems by (simp add: header_scan_false)
  next
    case False
    then show ?thesis using Cons by simp
  qed
qed

lemma header_table_valid_iff:
  "header_table_valid m hdr \<longleftrightarrow>
     valid_table (read_bytes m (h_pBoneStates hdr) (unat (h_boneStateCount hdr))) (h_boneCount hdr)"
proof -
  let ?n = "unat (h_boneStateCount hdr)" and ?p = "h_pBoneStates hdr" and ?bc = "h_boneCount hdr"
  obtain v u where s: "header_scan m ?p ?bc [0..<?n] True [] = (v, u)"
    by (cases "header_scan m ?p ?bc [0..<?n] True []")
  have v: "v \<longleftrightarrow> (\<forall>i \<in> set [0..<?n]. ucast (m (?p + i)) < ?bc)"
    using header_scan_valid [of m ?p ?bc "[0..<?n]" "[]"] s by simp
  show ?thesis
  proof (cases v)
    case True
    then have "u = fold List.insert (read_bytes m ?p ?n) []"
      using header_scan_set [of m ?p ?bc "[0..<?n]" "[]"] s by (simp add: read_bytes_def)
    then have "length u = ?n \<longleftrightarrow> distinct (read_bytes m ?p ?n)"
      using fold_insert_length_iff [of "read_bytes m ?p ?n"] by simp
    then show ?thesis
      using True v by (simp add: header_table_valid_def s valid_table_def list_all_read_bytes Let_def)
  next
    case False
    then have "\<not> (\<forall>i \<in> set [0..<?n]. ucast (m (?p + i)) < ?bc)" using v by simp
    then have "\<not> valid_table (read_bytes m ?p ?n) ?bc"
      by (simp add: valid_table_def list_all_read_bytes)
    moreover have "\<not> header_table_valid m hdr"
      using False by (simp add: header_table_valid_def s Let_def)
    ultimately show ?thesis by simp
  qed
qed

lemma backward_scan_Some:
  "backward_scan m n tb start = Some off \<Longrightarrow>
     backward_candidate m n tb off \<and> searchStart \<le> off \<and> off \<le> start
     \<and> (\<forall>q. off < q \<and> q \<le> start \<longrightarrow> \<not> backward_candidate m n tb q)"
proof (induction m n tb start rule: backward_scan.induct)
  case (1 m n tb start)
  note eq = backward_scan.simps [of m n tb start]
  show ?case
  proof (cases "start < searchStart")
    case True
    then show ?thesis using "1.prems" by (simp add: eq)
  next
    case False
    note ns = this
    show ?thesis
    proof (cases "run_ok m start n tb \<and> looksLikeHeader m start")
      case True
      then have "off = start" using "1.prems" ns by (simp add: eq)
      then show ?thesis using True ns by (auto simp: backward_candidate_def run_ok_iff)
    next
      case False
      then have r: "backward_scan m n tb (start - 1) = Some off"
        using "1.prems" ns by (auto simp: eq split: if_splits)
      from "1.IH" [OF ns False r]
      have ih: "backward_candidate m n tb off \<and> searchStart \<le> off \<and> off \<le> start - 1
          \<and> (\<forall>q. off < q \<and> q \<le> start - 1 \<longrightarrow> \<not> backward_candidate m n tb q)" .
      have nc: "\<not> backward_candidate m n tb start"
        using False by (simp add: backward_candidate_def run_ok_iff)
      have "\<not> backward_candidate m n tb q" if "off < q" "q \<le> start" for q
      proof (cases "q = start")
        case True
        then show ?thesis using nc by simp
      next
        case False
        then have "q \<le> start - 1" using that by simp
        then show ?thesis using ih that by blast
      qed
      then show ?thesis using ih by auto
    qed
  qed
qed

lemma backward_scan_None:
  "backward_scan m n tb start = None \<Longrightarrow>
     (\<forall>q. searchStart \<le> q \<and> q \<le> start \<longrightarrow> \<not> backward_candidate m n tb q)"
proof (induction m n tb start rule: backward_scan.induct)
  case (1 m n tb start)
  note eq = backward_scan.simps [of m n tb start]
  show ?case
  proof (cases "start < searchStart")
    case True
    then show ?thesis by auto
  next
    case False
    note ns = this
    have nr: "\<not> (run_ok m start n tb \<and> looksLikeHeader m start)"
    proof
      assume "run_ok m start n tb \<and> looksLikeHeader m start"
      then have "backward_scan m n tb start = Some start" using ns by (simp add: eq)
      then show False using "1.prems" by simp
    qed
    then have r: "backward_scan m n tb (start - 1) = None"
      using "1.prems" ns by (auto simp: eq split: if_splits)
    from "1.IH" [OF ns nr r]
    have ih: "\<forall>q. searchStart \<le> q \<and> q \<le> start - 1 \<longrightarrow> \<not> backward_candidate m n tb q" .
    have nc: "\<not> backward_candidate m n tb start"
      using nr by (simp add: backward_candidate_def run_ok_iff)
    have "\<not> backward_candidate m n tb q" if "searchStart \<le> q" "q \<le> start" for q
    proof (cases "q = start")
      case True
      then show ?thesis using nc by simp
    next
      case False
      then have "q \<le> start - 1" using that by simp
      then show ?thesis using ih that by blast
    qed
    then show ?thesis by blast
  qed
qed

lemma forward_scan_Some:
  "forward_scan m sz n tb start = Some off \<Longrightarrow>
     valid_table (read_bytes m off n) tb \<and> start \<le> off \<and> off < sz - n
     \<and> (\<forall>q. start \<le> q \<and> q < off \<longrightarrow> \<not> valid_table (read_bytes m q n) tb)"
proof (induction m sz n tb start rule: forward_scan.induct)
  case (1 m sz n tb start)
  note eq = forward_scan.simps [of m sz n tb start]
  show ?case
  proof (cases "start < sz - n")
    case False
    then show ?thesis using "1.prems" by (simp add: eq)
  next
    case True
    note lt = this
    show ?thesis
    proof (cases "run_ok m start n tb")
      case True
      then have "off = start" using "1.prems" lt by (simp add: eq)
      then show ?thesis using True lt by (auto simp: run_ok_iff)
    next
      case False
      then have r: "forward_scan m sz n tb (start + 1) = Some off"
        using "1.prems" lt by (simp add: eq)
      from "1.IH" [OF lt False r]
      have ih: "valid_table (read_bytes m off n) tb \<and> start + 1 \<le> off \<and> off < sz - n
         \<and> (\<forall>q. start + 1 \<le> q \<and> q < off \<longrightarrow> \<not> valid_table (read_bytes m q n) tb)" .
      have nc: "\<not> valid_table (read_bytes m start n) tb" using False by (simp add: run_ok_iff)
      have "\<not> valid_table (read_bytes m q n) tb" if "start \<le> q" "q < off" for q
      proof (cases "q = start")
        case True
        then show ?thesis using nc by simp
      next
        case False
        then have "start + 1 \<le> q" using that by simp
        then show ?thesis using ih that by blast
      qed
      then show ?thesis using ih by auto
    qed
  qed
qed

lemma forward_scan_None:
  "forward_scan m sz n tb start = None \<Longrightarrow>
     (\<forall>q. start \<le> q \<and> q < sz - n \<longrightarrow> \<not> valid_table (read_bytes m q n) tb)"
proof (induction m sz n tb start rule: forward_scan.induct)
  case (1 m sz n tb start)
  note eq = forward_scan.simps [of m sz n tb start]
  show ?case
  proof (cases "start < sz - n")
    case False
    then show ?thesis by auto
  next
    case True
    note lt = this
    have nr: "\<not> run_ok m start n tb"
    proof
      assume "run_ok m start n tb"
      then have "forward_scan m sz n tb start = Some start" using lt by (simp add: eq)
      then show False using "1.prems" by simp
    qed
    then have r: "forward_scan m sz n tb (start + 1) = None"
      using "1.prems" lt by (simp add: eq)
    from "1.IH" [OF lt nr r]
    have ih: "\<forall>q. start + 1 \<le> q \<and> q < sz - n \<longrightarrow> \<not> valid_table (read_bytes m q n) tb" .
    have nc: "\<not> valid_table (read_bytes m start n) tb" using nr by (simp add: run_ok_iff)
    have "\<not> valid_table (read_bytes m q n) tb" if "start \<le> q" "q < sz - n" for q
    proof (cases "q = start")
      case True
      then show ?thesis using nc by simp
    next
      case False
      then have "start + 1 \<le> q" using that by simp
      then show ?thesis using ih that by blast
    qed
    then show ?thesis by blast
  qed
qed


lemma FindBoneStateData_191_Some:
  assumes "FindBoneStateData_191 m sz c tb = Some off"
  shows "valid_table (read_bytes m off (unat c)) tb \<and> searchStart \<le> off \<and> off + unat c \<le> sz
       \<and> ((backward_candidate m (unat c) tb off
             \<and> (\<forall>q. off < q \<and> q \<le> sz - unat c \<longrightarrow> \<not> backward_candidate m (unat c) tb q))
          \<or> ((\<forall>q. searchStart \<le> q \<and> q \<le> sz - unat c \<longrightarrow> \<not> backward_candidate m (unat c) tb q)
             \<and> (\<forall>q. searchStart \<le> q \<and> q < off \<longrightarrow> \<not> valid_table (read_bytes m q (unat c)) tb)))"
proof -
  let ?n = "unat c"
  have g: "\<not> (c = 0 \<or> tb = 0 \<or> sz < ?n)"
    using assms by (auto simp: FindBoneStateData_191_def)
  then have le: "?n \<le> sz" by simp
  show ?thesis
  proof (cases "backward_scan m ?n tb (sz - ?n)")
    case (Some off')
    then have "off' = off" using assms g by (simp add: FindBoneStateData_191_def)
    with backward_scan_Some [OF Some]
    have b: "backward_candidate m ?n tb off" "searchStart \<le> off" "off \<le> sz - ?n"
      "\<forall>q. off < q \<and> q \<le> sz - ?n \<longrightarrow> \<not> backward_candidate m ?n tb q"
      by simp_all
    have "off + ?n \<le> sz" using b(3) le by linarith
    then show ?thesis using b by (simp add: backward_candidate_def)
  next
    case None
    then have f: "forward_scan m sz ?n tb searchStart = Some off"
      using assms g by (simp add: FindBoneStateData_191_def)
    from forward_scan_Some [OF f]
    have fs: "valid_table (read_bytes m off ?n) tb" "searchStart \<le> off" "off < sz - ?n"
      "\<forall>q. searchStart \<le> q \<and> q < off \<longrightarrow> \<not> valid_table (read_bytes m q ?n) tb"
      by simp_all
    have "off + ?n \<le> sz" using fs(3) by linarith
    then show ?thesis using fs backward_scan_None [OF None] by simp
  qed
qed

lemma backward_scan_eq_Some:
  assumes "searchStart \<le> off" and "off \<le> start" and "backward_candidate m n tb off"
    and "\<And>q. off < q \<Longrightarrow> q \<le> start \<Longrightarrow> \<not> backward_candidate m n tb q"
  shows "backward_scan m n tb start = Some off"
proof (cases "backward_scan m n tb start")
  case None
  from backward_scan_None [OF None] assms(1,2,3) show ?thesis by blast
next
  case (Some off')
  from backward_scan_Some [OF Some]
  have c: "backward_candidate m n tb off'" and r: "searchStart \<le> off'" "off' \<le> start"
    and mx: "\<And>q. off' < q \<Longrightarrow> q \<le> start \<Longrightarrow> \<not> backward_candidate m n tb q"
    by blast+
  have "\<not> off' < off" using mx [of off] assms(2,3) by blast
  moreover have "\<not> off < off'" using assms(4) [of off'] c r(2) by blast
  ultimately show ?thesis using Some by simp
qed

lemma forward_scan_eq_Some:
  assumes "start \<le> off" and "off < sz - n" and "valid_table (read_bytes m off n) tb"
    and "\<And>q. start \<le> q \<Longrightarrow> q < off \<Longrightarrow> \<not> valid_table (read_bytes m q n) tb"
  shows "forward_scan m sz n tb start = Some off"
proof (cases "forward_scan m sz n tb start")
  case None
  from forward_scan_None [OF None] assms(1,2,3) show ?thesis by blast
next
  case (Some off')
  from forward_scan_Some [OF Some]
  have c: "valid_table (read_bytes m off' n) tb" and r: "start \<le> off'" "off' < sz - n"
    and mn: "\<And>q. start \<le> q \<Longrightarrow> q < off' \<Longrightarrow> \<not> valid_table (read_bytes m q n) tb"
    by blast+
  have "\<not> off < off'" using mn [of off] assms(1,3) by blast
  moreover have "\<not> off' < off" using assms(4) [of off'] c r(1) by blast
  ultimately show ?thesis using Some by simp
qed

lemma FindBoneStateData_191_backward:
  assumes "c \<noteq> 0" and "tb \<noteq> 0" and "backward_hit m sz c tb off"
    and "\<And>q. off < q \<Longrightarrow> \<not> backward_hit m sz c tb q"
  shows "FindBoneStateData_191 m sz c tb = Some off"
proof -
  let ?n = "unat c"
  from assms(3) have h: "searchStart \<le> off" "off + ?n \<le> sz" "backward_candidate m ?n tb off"
    by (simp_all add: backward_hit_def)
  have le: "off \<le> sz - ?n" and nsz: "\<not> sz < ?n" using h(2) by simp_all
  have "\<not> backward_candidate m ?n tb q" if "off < q" "q \<le> sz - ?n" for q
  proof
    assume "backward_candidate m ?n tb q"
    moreover have "searchStart \<le> q" using h(1) that(1) by simp
    moreover have "q + ?n \<le> sz" using that(2) nsz by simp
    ultimately have "backward_hit m sz c tb q" by (simp add: backward_hit_def)
    then show False using assms(4) [OF that(1)] by simp
  qed
  then have "backward_scan m ?n tb (sz - ?n) = Some off"
    using h(1) le h(3) by (intro backward_scan_eq_Some)
  then show ?thesis using assms(1,2) nsz by (simp add: FindBoneStateData_191_def)
qed

lemma backward_scan_no_hit:
  assumes "\<And>q. \<not> backward_hit m sz c tb q" and "\<not> sz < unat c"
  shows "backward_scan m (unat c) tb (sz - unat c) = None"
proof (cases "backward_scan m (unat c) tb (sz - unat c)")
  case None
  then show ?thesis .
next
  case (Some off')
  from backward_scan_Some [OF Some]
  have "backward_candidate m (unat c) tb off'" "searchStart \<le> off'" "off' \<le> sz - unat c"
    by blast+
  then have "backward_hit m sz c tb off'" using assms(2) by (simp add: backward_hit_def)
  then show ?thesis using assms(1) by blast
qed

lemma FindBoneStateData_191_forward:
  assumes "c \<noteq> 0" and "tb \<noteq> 0" and "\<And>q. \<not> backward_hit m sz c tb q"
    and "forward_hit m sz c tb off" and "\<And>q. q < off \<Longrightarrow> \<not> forward_hit m sz c tb q"
  shows "FindBoneStateData_191 m sz c tb = Some off"
proof -
  let ?n = "unat c"
  from assms(4) have h: "searchStart \<le> off" "off + ?n < sz"
    "valid_table (read_bytes m off ?n) tb"
    by (simp_all add: forward_hit_def)
  have lt: "off < sz - ?n" and nsz: "\<not> sz < ?n" using h(2) by simp_all
  have b: "backward_scan m ?n tb (sz - ?n) = None"
    using assms(3) nsz by (rule backward_scan_no_hit)
  have "\<not> valid_table (read_bytes m q ?n) tb" if "searchStart \<le> q" "q < off" for q
  proof
    assume "valid_table (read_bytes m q ?n) tb"
    moreover have "q + ?n < sz" using that(2) h(2) by simp
    ultimately have "forward_hit m sz c tb q" using that(1) by (simp add: forward_hit_def)
    then show False using assms(5) [OF that(2)] by simp
  qed
  then have "forward_scan m sz ?n tb searchStart = Some off"
    using h(1) lt h(3) by (intro forward_scan_eq_Some)
  then show ?thesis using assms(1,2) nsz b by (simp add: FindBoneStateData_191_def)
qed

lemma FindBoneStateData_191_miss:
  assumes "tb = 0 \<or> ((\<forall>q. \<not> backward_hit m sz c tb q) \<and> (\<forall>q. \<not> forward_hit m sz c tb q))"
  shows "FindBoneStateData_191 m sz c tb = None"
proof (cases "c = 0 \<or> tb = 0 \<or> sz < unat c")
  case True
  then show ?thesis by (simp add: FindBoneStateData_191_def)
next
  case False
  then have nb: "\<And>q. \<not> backward_hit m sz c tb q" and nf: "\<And>q. \<not> forward_hit m sz c tb q"
    using assms by auto
  from False have nsz: "\<not> sz < unat c" by simp
  have b: "backward_scan m (unat c) tb (sz - unat c) = None"
    using nb nsz by (rule backward_scan_no_hit)
  have f: "forward_scan m sz (unat c) tb searchStart = None"
  proof (cases "forward_scan m sz (unat c) tb searchStart")
    case None
    then show ?thesis .
  next
    case (Some off')
    from forward_scan_Some [OF Some]
    have "valid_table (read_bytes m off' (unat c)) tb" "searchStart \<le> off'" "off' < sz - unat c"
      by blast+
    then have "forward_hit m sz c tb off'" by (simp add: forward_hit_def)
    then show ?thesis using nf by blast
  qed
  show ?thesis using False b f by (simp add: FindBoneStateData_191_def)
qed

lemma BoneStates_191_found:
  assumes "h_boneStateCount hdr \<noteq> 0" and "0 < rmdlSize"
    and "FindBoneStateData_191 data rmdlSize (h_boneStateCount hdr) (h_boneCount hdr) = Some off"
  shows "BoneStates_191 (Some hdr) (Some data) rmdlSize maxBoneIndex
           = (read_bytes data off (unat (h_boneStateCount hdr)), [])"
proof -
  have c0: "h_boneStateCount hdr > 0" using assms(1) by (simp add: word_neq_0_conv)
  have "unat (h_boneStateCount hdr) \<noteq> 0" using assms(1) by (simp add: unat_eq_0)
  then have "read_bytes data off (unat (h_boneStateCount hdr)) \<noteq> []"
    by (simp add: read_bytes_def)
  then show ?thesis using c0 assms(2) by (simp add: BoneStates_191_def assms(3))
qed

lemma BoneStates_191_not_found:
  assumes "h_boneStateCount hdr \<noteq> 0" and "0 < rmdlSize"
    and "FindBoneStateData_191 data rmdlSize (h_boneStateCount hdr) (h_boneCount hdr) = None"
  shows "BoneStates_191 (Some hdr) (Some data) rmdlSize maxBoneIndex
           = (if valid_table (read_bytes data (h_pBoneStates hdr) (unat (h_boneStateCount hdr)))
                   (h_boneCount hdr)
              then (read_bytes data (h_pBoneStates hdr) (unat (h_boneStateCount hdr)),
                    [WarnPatternSearchFailed])
              else if maxBoneIndex > 0
              then (map word_of_nat [0..<unat maxBoneIndex + 1],
                    [WarnPatternSearchFailed, WarnHeaderOffsetInvalid, InfoSequentialFallback])
              else ([], [WarnPatternSearchFailed, WarnHeaderOffsetInvalid]))"
proof -
  have c0: "h_boneStateCount hdr > 0" using assms(1) by (simp add: word_neq_0_conv)
  have "unat (h_boneStateCount hdr) \<noteq> 0" using assms(1) by (simp add: unat_eq_0)
  then have ne: "read_bytes data (h_pBoneStates hdr) (unat (h_boneStateCount hdr)) \<noteq> []"
    by (simp add: read_bytes_def)
  show ?thesis
    using c0 assms(2) ne by (simp add: BoneStates_191_def assms(3) header_table_valid_iff)
qed

text \<open>
  Claim C4, as amended. When the model header declares a non-empty bone-state table and
  the model file is at hand, the recovery tries in this order. First the backward scan:
  if some offset from \<open>0x1000\<close> up to the last one at which the table fits holds a run
  of \<open>boneStateCount\<close> bytes that is a valid table (all values below the bone count
  and pairwise distinct) behind 16 bytes that look like a header, the highest such offset
  is taken. Otherwise the forward scan: if some offset from \<open>0x1000\<close> on, before that
  last one, holds a valid table, the lowest such offset is taken, header or not.
  Otherwise (also when the bone count is zero) the table at the offset the header
  declares is taken if it is valid, with a warning logged. If that fails too, with two
  warnings logged, the result is the identity mapping \<open>[0..maxBoneIndex]\<close> when the
  largest bone index seen is positive, and an empty table otherwise. Every table that is
  not the identity mapping is empty or valid.
\<close>

theorem bone_state_recovery:
  assumes "h_boneStateCount hdr \<noteq> 0" and "0 < rmdlSize"
  shows
    "(h_boneCount hdr \<noteq> 0
        \<and> backward_hit data rmdlSize (h_boneStateCount hdr) (h_boneCount hdr) off
        \<and> (\<forall>q. off < q \<longrightarrow> \<not> backward_hit data rmdlSize (h_boneStateCount hdr) (h_boneCount hdr) q)
      \<longrightarrow> FindBoneStateData_191 data rmdlSize (h_boneStateCount hdr) (h_boneCount hdr) = Some off
        \<and> BoneStates_191 (Some hdr) (Some data) rmdlSize maxBoneIndex
            = (read_bytes data off (unat (h_boneStateCount hdr)), []))
   \<and> (h_boneCount hdr \<noteq> 0
        \<and> (\<forall>q. \<not> backward_hit data rmdlSize (h_boneStateCount hdr) (h_boneCount hdr) q)
        \<and> forward_hit data rmdlSize (h_boneStateCount hdr) (h_boneCount hdr) off
        \<and> (\<forall>q. q < off \<longrightarrow> \<not> forward_hit data rmdlSize (h_boneStateCount hdr) (h_boneCount hdr) q)
      \<longrightarrow> FindBoneStateData_191 data rmdlSize (h_boneStateCount hdr) (h_boneCount hdr) = Some off
        \<and> BoneStates_191 (Some hdr) (Some data) rmdlSize maxBoneIndex
            = (read_bytes data off (unat (h_boneStateCount hdr)), []))
   \<and> (h_boneCount hdr = 0
        \<or> ((\<forall>q. \<not> backward_hit data rmdlSize (h_boneStateCount hdr) (h_boneCount hdr) q)
           \<and> (\<forall>q. \<not> forward_hit data rmdlSize (h_boneStateCount hdr) (h_boneCount hdr) q))
      \<longrightarrow> FindBoneStateData_191 data rmdlSize (h_boneStateCount hdr) (h_boneCount hdr) = None
        \<and> BoneStates_191 (Some hdr) (Some data) rmdlSize maxBoneIndex
            = (if valid_table (read_bytes data (h_pBoneStates hdr) (unat (h_boneStateCount hdr)))
                    (h_boneCount hdr)
               then (read_bytes data (h_pBoneStates hdr) (unat (h_boneStateCount hdr)),
                     [WarnPatternSearchFailed])
               else if maxBoneIndex > 0
               then (map word_of_nat [0..<unat maxBoneIndex + 1],
                     [WarnPatternSearchFailed, WarnHeaderOffsetInvalid, InfoSequentialFallback])
               else ([], [WarnPatternSearchFailed, WarnHeaderOffsetInvalid])))
   \<and> (InfoSequentialFallback \<notin> set (snd (BoneStates_191 (Some hdr) (Some data) rmdlSize maxBoneIndex))
      \<longrightarrow> fst (BoneStates_191 (Some hdr) (Some data) rmdlSize maxBoneIndex) = []
        \<or> valid_table (fst (BoneStates_191 (Some hdr) (Some data) rmdlSize maxBoneIndex))
             (h_boneCount hdr))"
proof -
  let ?c = "h_boneStateCount hdr" and ?tb = "h_boneCount hdr"
  let ?B = "BoneStates_191 (Some hdr) (Some data) rmdlSize maxBoneIndex"
  have 1: "FindBoneStateData_191 data rmdlSize ?c ?tb = Some off
         \<and> ?B = (read_bytes data off (unat ?c), [])"
    if "?tb \<noteq> 0" "backward_hit data rmdlSize ?c ?tb off"
       "\<forall>q. off < q \<longrightarrow> \<not> backward_hit data rmdlSize ?c ?tb q"
  proof -
    have f: "FindBoneStateData_191 data rmdlSize ?c ?tb = Some off"
      using assms(1) that(1,2) that(3) by (intro FindBoneStateData_191_backward) blast+
    with BoneStates_191_found [OF assms f] show ?thesis by simp
  qed
  have 2: "FindBoneStateData_191 data rmdlSize ?c ?tb = Some off
         \<and> ?B = (read_bytes data off (unat ?c), [])"
    if "?tb \<noteq> 0" "\<forall>q. \<not> backward_hit data rmdlSize ?c ?tb q"
       "forward_hit data rmdlSize ?c ?tb off"
       "\<forall>q. q < off \<longrightarrow> \<not> forward_hit data rmdlSize ?c ?tb q"
  proof -
    have f: "FindBoneStateData_191 data rmdlSize ?c ?tb = Some off"
      using assms(1) that by (intro FindBoneStateData_191_forward) blast+
    with BoneStates_191_found [OF assms f] show ?thesis by simp
  qed
  have 3: "FindBoneStateData_191 data rmdlSize ?c ?tb = None
         \<and> ?B = (if valid_table (read_bytes data (h_pBoneStates hdr) (unat ?c)) ?tb
               then (read_bytes data (h_pBoneStates hdr) (unat ?c), [WarnPatternSearchFailed])
               else if maxBoneIndex > 0
               then (map word_of_nat [0..<unat maxBoneIndex + 1],
                     [WarnPatternSearchFailed, WarnHeaderOffsetInvalid, InfoSequentialFallback])
               else ([], [WarnPatternSearchFailed, WarnHeaderOffsetInvalid]))"
    if "?tb = 0 \<or> ((\<forall>q. \<not> backward_hit data rmdlSize ?c ?tb q)
           \<and> (\<forall>q. \<not> forward_hit data rmdlSize ?c ?tb q))"
  proof -
    have f: "FindBoneStateData_191 data rmdlSize ?c ?tb = None"
      using that by (rule FindBoneStateData_191_miss)
    with BoneStates_191_not_found [OF assms f] show ?thesis by simp
  qed
  have 4: "fst ?B = [] \<or> valid_table (fst ?B) ?tb"
    if "InfoSequentialFallback \<notin> set (snd ?B)"
  proof (cases "FindBoneStateData_191 data rmdlSize ?c ?tb")
    case (Some o')
    from FindBoneStateData_191_Some [OF Some] BoneStates_191_found [OF assms Some, of maxBoneIndex]
    show ?thesis by simp
  next
    case None
    from BoneStates_191_not_found [OF assms None, of maxBoneIndex] that
    show ?thesis by (simp split: if_splits)
  qed
  from 1 2 3 4 show ?thesis by blast
qed


lemma upt3: "[0..<3] = [0, 1, 2::nat]" by code_simp

lemma run_blank: "\<not> run_ok blank_mem p 3 10"
  by (simp add: run_ok_def upt3 blank_mem_def)

lemma find_blank: "FindBoneStateData_191 blank_mem 4100 3 10 = None"
  by (simp add: FindBoneStateData_191_def backward_scan.simps forward_scan.simps searchStart_def run_blank)

lemma run_example_above: "4116 < p \<Longrightarrow> \<not> run_ok example_rmdl_mem p 3 10"
  by (simp add: run_ok_def upt3 example_rmdl_mem_def word_le_nat_alt)

lemma run_example_at: "run_ok example_rmdl_mem 4116 3 10"
  by (simp add: run_ok_def upt3 example_rmdl_mem_def word_le_nat_alt)

lemma header_example_at: "looksLikeHeader example_rmdl_mem 4116"
  by (simp add: looksLikeHeader_def example_rmdl_mem_def)

lemma find_example: "FindBoneStateData_191 example_rmdl_mem 4140 3 10 = Some 4116"
  by (simp add: FindBoneStateData_191_def backward_scan.simps searchStart_def
      run_example_above run_example_at header_example_at)


lemma blank_table_invalid: "\<not> valid_table (read_bytes blank_mem p 3) 10"
  using run_blank [of p] by (simp add: run_ok_iff)

lemma table_run_ok: "run_ok (table_at_mem p) q 3 10 \<longleftrightarrow> q = p"
  by (auto simp: run_ok_def upt3 table_at_mem_def word_le_nat_alt split: if_splits)

lemma table_valid: "valid_table (read_bytes (table_at_mem p) q 3) 10 \<longleftrightarrow> q = p"
  using table_run_ok [of p q] by (simp add: run_ok_iff)

lemma table_no_header: "16 \<le> p \<Longrightarrow> \<not> looksLikeHeader (table_at_mem p) p"
  by (simp add: looksLikeHeader_def table_at_mem_def)

lemma table_read: "read_bytes (table_at_mem p) p 3 = [2, 0, 1]"
  by (simp add: read_bytes_def upt3 table_at_mem_def)

lemma example_read: "read_bytes example_rmdl_mem 4116 3 = [2, 0, 1]"
  by (simp add: read_bytes_def upt3 example_rmdl_mem_def)

theorem bone_state_recovery_witness:
  "FindBoneStateData_191 example_rmdl_mem 4140 3 10 = Some 4116
   \<and> BoneStates_191 (Some example_hdr) (Some example_rmdl_mem) 4140 0 = ([2, 0, 1], [])
   \<and> FindBoneStateData_191 (table_at_mem 4100) 4140 3 10 = Some 4100
   \<and> BoneStates_191 (Some example_hdr) (Some (table_at_mem 4100)) 4140 0 = ([2, 0, 1], [])
   \<and> FindBoneStateData_191 (table_at_mem 100) 4140 3 10 = None
   \<and> BoneStates_191 (Some low_table_hdr) (Some (table_at_mem 100)) 4140 0
       = ([2, 0, 1], [WarnPatternSearchFailed])
   \<and> FindBoneStateData_191 blank_mem 4100 3 10 = None
   \<and> BoneStates_191 (Some example_hdr) (Some blank_mem) 4100 2
       = ([0, 1, 2], [WarnPatternSearchFailed, WarnHeaderOffsetInvalid, InfoSequentialFallback])"
proof -
  have h: "h_boneStateCount example_hdr \<noteq> 0" "h_boneStateCount low_table_hdr \<noteq> 0"
    by (simp_all add: example_hdr_def low_table_hdr_def)
  have f: "h_boneStateCount example_hdr = 3" "h_boneCount example_hdr = 10"
    "h_pBoneStates example_hdr = 0"
    "h_boneStateCount low_table_hdr = 3" "h_boneCount low_table_hdr = 10"
    "h_pBoneStates low_table_hdr = 100"
    by (simp_all add: example_hdr_def low_table_hdr_def)
  have s1: "(0::nat) < 4140" and s2: "(0::nat) < 4100" by simp_all
  have u3: "unat (3 :: 16 word) = 3" by simp
  have t10: "(10 :: 16 word) \<noteq> 0" by simp
  \<comment> \<open>a table behind a header: found by the backward scan\<close>
  have b1: "backward_hit example_rmdl_mem 4140 3 10 4116"
    using run_example_at header_example_at
    by (simp add: backward_hit_def backward_candidate_def run_ok_iff searchStart_def)
  have b1': "\<forall>q. 4116 < q \<longrightarrow> \<not> backward_hit example_rmdl_mem 4140 3 10 q"
    using run_example_above by (simp add: backward_hit_def backward_candidate_def run_ok_iff)
  from bone_state_recovery [OF h(1) s1, of example_rmdl_mem 4116 0]
  have w1: "FindBoneStateData_191 example_rmdl_mem 4140 3 10 = Some 4116
          \<and> BoneStates_191 (Some example_hdr) (Some example_rmdl_mem) 4140 0 = ([2, 0, 1], [])"
    unfolding f u3 example_read using t10 b1 b1' by blast
  \<comment> \<open>a table without a header: missed by the backward scan, found by the forward scan\<close>
  have b2: "\<forall>q. \<not> backward_hit (table_at_mem 4100) 4140 3 10 q"
    using table_no_header [of 4100]
    by (auto simp: backward_hit_def backward_candidate_def table_valid)
  have f2: "forward_hit (table_at_mem 4100) 4140 3 10 4100"
    by (simp add: forward_hit_def table_valid searchStart_def)
  have f2': "\<forall>q. q < 4100 \<longrightarrow> \<not> forward_hit (table_at_mem 4100) 4140 3 10 q"
    by (simp add: forward_hit_def table_valid)
  from bone_state_recovery [OF h(1) s1, of "table_at_mem 4100" 4100 0]
  have w2: "FindBoneStateData_191 (table_at_mem 4100) 4140 3 10 = Some 4100
          \<and> BoneStates_191 (Some example_hdr) (Some (table_at_mem 4100)) 4140 0 = ([2, 0, 1], [])"
    unfolding f u3 table_read using t10 b2 f2 f2' by blast
  \<comment> \<open>a table below the scanned range at the offset the header declares\<close>
  have b3: "\<forall>q. \<not> backward_hit (table_at_mem 100) 4140 3 10 q"
    by (auto simp: backward_hit_def backward_candidate_def table_valid searchStart_def)
  have f3: "\<forall>q. \<not> forward_hit (table_at_mem 100) 4140 3 10 q"
    by (auto simp: forward_hit_def table_valid searchStart_def)
  have v3: "valid_table [2, 0, 1] (10 :: 16 word)"
    using table_valid [of 100 100] by (simp add: table_read)
  from bone_state_recovery [OF h(2) s1, of "table_at_mem 100" 0 0]
  have w3: "FindBoneStateData_191 (table_at_mem 100) 4140 3 10 = None
          \<and> BoneStates_191 (Some low_table_hdr) (Some (table_at_mem 100)) 4140 0
              = ([2, 0, 1], [WarnPatternSearchFailed])"
    unfolding f u3 table_read using b3 f3 v3 by (simp only: if_True) blast
  \<comment> \<open>no table anywhere: the sequential fallback\<close>
  have b4: "\<forall>q. \<not> backward_hit blank_mem 4100 3 10 q"
    using blank_table_invalid by (simp add: backward_hit_def backward_candidate_def)
  have f4: "\<forall>q. \<not> forward_hit blank_mem 4100 3 10 q"
    using blank_table_invalid by (simp add: forward_hit_def)
  have m4: "map word_of_nat [0..<unat (2 :: byte) + 1] = [0, 1, 2 :: byte]"
    by (simp add: upt3)
  have p4: "(2 :: byte) > 0" by simp
  from bone_state_recovery [OF h(1) s2, of blank_mem 0 2]
  have w4: "FindBoneStateData_191 blank_mem 4100 3 10 = None
          \<and> BoneStates_191 (Some example_hdr) (Some blank_mem) 4100 2
              = ([0, 1, 2], [WarnPatternSearchFailed, WarnHeaderOffsetInvalid, InfoSequentialFallback])"
    unfolding f u3 m4 using b4 f4 blank_table_invalid [of 0] p4 by (simp only: if_False if_True) blast
  from w1 w2 w3 w4 show ?thesis by blast
qed

text \<open>
  The claim as stated promises the identity mapping whenever all three attempts fail.
  On a file without any table and a mesh set whose largest bone index is 0, all three
  fail and the version 19.1 converter leaves the table empty instead of \<open>[0]\<close>.
\<close>

theorem bone_state_recovery_counterexample:
  "FindBoneStateData_191 blank_mem 4100 (h_boneStateCount example_hdr) (h_boneCount example_hdr)
     = None
   \<and> \<not> header_table_valid blank_mem example_hdr
   \<and> BoneStates_191 (Some example_hdr) (Some blank_mem) 4100 0
       = ([], [WarnPatternSearchFailed, WarnHeaderOffsetInvalid])
   \<and> fst (BoneStates_191 (Some example_hdr) (Some blank_mem) 4100 0)
       \<noteq> map word_of_nat [0..<unat (0 :: byte) + 1]"
proof -
  have f: "h_boneStateCount example_hdr = 3" "h_boneCount example_hdr = 10"
    "h_pBoneStates example_hdr = 0"
    by (simp_all add: example_hdr_def)
  have i: "\<not> header_table_valid blank_mem example_hdr"
    by (simp add: header_table_valid_iff f blank_table_invalid)
  have r: "BoneStates_191 (Some example_hdr) (Some blank_mem) 4100 0
       = ([], [WarnPatternSearchFailed, WarnHeaderOffsetInvalid])"
    by (simp add: BoneStates_191_def f find_blank i)
  show ?thesis using i r by (simp add: f find_blank)
qed

text \<open>The version 16 converter does fall back to \<open>[0]\<close> there, with its own warning.\<close>

lemma sequential_fallback_160_zero:
  "sequential_fallback_160 [] 0 = ([0], [WarnSequentialIndices])"
  by (simp add: sequential_fallback_160_def)

lemma FindBoneStateData_160_eq: "FindBoneStateData_160 = FindBoneStateData_191"
  by (intro ext) (simp add: FindBoneStateData_160_def FindBoneStateData_191_def)

subsection \<open>Mesh flags, strides and the vertex copy\<close>

lemma concat_const_length:
  "(\<And>x. length (f x) = n) \<Longrightarrow> length (concat (map f xs)) = n * length xs"
  by (induction xs) simp_all

lemma single_bit_restore:
  fixes f :: "64 word"
  assumes "f AND push_bit k 1 \<noteq> 0"
  shows "(f AND NOT (push_bit k 1)) OR push_bit k 1 = f"
proof -
  have "bit f k"
  proof (rule ccontr)
    assume n: "\<not> bit f k"
    have "f AND push_bit k 1 = 0"
      by (rule bit_word_eqI) (use n in \<open>auto simp: bit_simps\<close>)
    with assms show False by simp
  qed
  then show ?thesis
    by (intro bit_word_eqI) (auto simp: bit_simps)
qed

lemma uv2_restore:
  fixes f :: "64 word"
  assumes "f AND VERTEX_HAS_UV2_FLAG \<noteq> 0"
  shows "(f AND NOT VERTEX_HAS_UV2_FLAG) OR VERTEX_HAS_UV2_FLAG = f"
proof -
  have u: "VERTEX_HAS_UV2_FLAG = (push_bit 33 1 :: 64 word)"
    by (simp add: VERTEX_HAS_UV2_FLAG_def)
  show ?thesis using assms unfolding u by (rule single_bit_restore)
qed

lemma uv2_cleared:
  fixes f :: "64 word"
  shows "(f AND NOT VERTEX_HAS_UV2_FLAG) AND VERTEX_HAS_UV2_FLAG = 0"
  by (simp add: and.assoc)

lemma copy_mesh_vertices_191_length:
  assumes "m_pVertices pMesh \<noteq> None" and "m_vertCacheSize pMesh \<noteq> v10VertSize_191 pMesh"
  shows "length (copy_mesh_vertices_191 vg pMesh) = v10VertSize_191 pMesh * m_vertCount pMesh"
proof -
  obtain src where s: "m_pVertices pMesh = Some src" using assms(1) by auto
  show ?thesis
  proof (cases "m_vertCount pMesh > 0")
    case True
    then show ?thesis
      using assms(2)
      by (simp add: copy_mesh_vertices_191_def s Let_def concat_const_length)
  next
    case False
    then show ?thesis by (simp add: copy_mesh_vertices_191_def s)
  qed
qed

lemma copy_mesh_vertices_160_length:
  assumes "m_pVertices pMesh \<noteq> None" and "m_vertBufferSize pMesh > 0"
  shows "length (copy_mesh_vertices_160 vg pMesh)
           = unat (CalculateVertexSize_160 (ConvertMeshFlags_160 (m_flags pMesh))) * m_vertCount pMesh"
proof -
  obtain src where s: "m_pVertices pMesh = Some src" using assms(1) by auto
  let ?v10 = "unat (CalculateVertexSize_160 (ConvertMeshFlags_160 (m_flags pMesh)))"
  have a: "length (read_bytes vg a (min k ?v10) @ replicate (?v10 - min k ?v10) 0) = ?v10" for a k
    by simp
  show ?thesis
    using assms(2) a
    by (simp add: copy_mesh_vertices_160_def s Let_def concat_const_length del: length_append)
qed

text \<open>
  Claim C1, as amended. For every mesh whose flag word has the second-UV-channel bit
  set, the converted mesh header carries the flag word with exactly that bit removed, and
  its stride is the size computed from the converted flags, which is the size computed
  from the source flags as well (the size computation has no cost for the bit). When the
  mesh has vertex data and the stride of the source header differs from the converted
  stride, the vertex bytes written for the mesh are converted stride times vertex count;
  in particular when the source header's stride is 8 bytes larger, the converted stride
  is 8 bytes smaller than it and that many bytes per vertex are written. The version 16
  converter writes converted stride times vertex count for every mesh with vertex data.
\<close>

theorem uv2_strip_conversion:
  assumes "m_flags pMesh AND VERTEX_HAS_UV2_FLAG \<noteq> 0"
  shows "om_flags (fill_mesh_191 st pMesh) = m_flags pMesh AND NOT VERTEX_HAS_UV2_FLAG
       \<and> om_flags (fill_mesh_191 st pMesh) AND VERTEX_HAS_UV2_FLAG = 0
       \<and> om_flags (fill_mesh_191 st pMesh) OR VERTEX_HAS_UV2_FLAG = m_flags pMesh
       \<and> om_vertCacheSize (fill_mesh_191 st pMesh)
           = CalculateVertexSize_191 (om_flags (fill_mesh_191 st pMesh))
       \<and> om_vertCacheSize (fill_mesh_191 st pMesh) = CalculateVertexSize_191 (m_flags pMesh)
       \<and> (m_pVertices pMesh \<noteq> None
            \<and> m_vertCacheSize pMesh \<noteq> unat (om_vertCacheSize (fill_mesh_191 st pMesh)) \<longrightarrow>
              length (copy_mesh_vertices_191 vg pMesh)
                = unat (om_vertCacheSize (fill_mesh_191 st pMesh)) * m_vertCount pMesh)
       \<and> (m_pVertices pMesh \<noteq> None
            \<and> m_vertCacheSize pMesh = unat (om_vertCacheSize (fill_mesh_191 st pMesh)) + 8 \<longrightarrow>
              length (copy_mesh_vertices_191 vg pMesh)
                = (m_vertCacheSize pMesh - 8) * m_vertCount pMesh)
       \<and> (m_pVertices pMesh \<noteq> None \<and> m_vertBufferSize pMesh > 0 \<longrightarrow>
              length (copy_mesh_vertices_160 vg pMesh)
                = unat (CalculateVertexSize_160 (ConvertMeshFlags_160 (m_flags pMesh)))
                  * m_vertCount pMesh)"
proof -
  have f: "om_flags (fill_mesh_191 st pMesh) = m_flags pMesh AND NOT VERTEX_HAS_UV2_FLAG"
    by (simp add: fill_mesh_191_def Let_def ConvertMeshFlags_191_def)
  have c: "om_vertCacheSize (fill_mesh_191 st pMesh)
             = CalculateVertexSize_191 (ConvertMeshFlags_191 (m_flags pMesh))"
    by (simp add: fill_mesh_191_def Let_def)
  have c1: "om_vertCacheSize (fill_mesh_191 st pMesh)
             = CalculateVertexSize_191 (om_flags (fill_mesh_191 st pMesh))"
    by (simp add: fill_mesh_191_def Let_def)
  have c2: "om_vertCacheSize (fill_mesh_191 st pMesh) = CalculateVertexSize_191 (m_flags pMesh)"
    using calc_size_strip_uv2 [of "m_flags pMesh"] by (simp add: c)
  have u: "unat (om_vertCacheSize (fill_mesh_191 st pMesh)) = v10VertSize_191 pMesh"
    by (simp add: c v10VertSize_191_def)
  have l1: "length (copy_mesh_vertices_191 vg pMesh)
              = unat (om_vertCacheSize (fill_mesh_191 st pMesh)) * m_vertCount pMesh"
    if "m_pVertices pMesh \<noteq> None"
       "m_vertCacheSize pMesh \<noteq> unat (om_vertCacheSize (fill_mesh_191 st pMesh))"
    using copy_mesh_vertices_191_length [of pMesh vg] that by (simp add: u)
  have l2: "length (copy_mesh_vertices_191 vg pMesh) = (m_vertCacheSize pMesh - 8) * m_vertCount pMesh"
    if "m_pVertices pMesh \<noteq> None"
       "m_vertCacheSize pMesh = unat (om_vertCacheSize (fill_mesh_191 st pMesh)) + 8"
    using l1 that by simp
  show ?thesis
    using f uv2_cleared [of "m_flags pMesh"] uv2_restore [OF assms] c1 c2 l1 l2
      copy_mesh_vertices_160_length [of pMesh vg]
    by simp
qed


lemma uv2_mesh_flags:
  "ConvertMeshFlags_191 0x200000001 = 0x1"
  "CalculateVertexSize_191 0x1 = 12"
  "CalculateVertexSize_191 0x200000001 = 12"
  "(0x200000001 :: 64 word) AND VERTEX_HAS_UV2_FLAG \<noteq> 0"
  by (simp_all add: ConvertMeshFlags_191_def CalculateVertexSize_191_def add_if_flag_def
      VERTEX_HAS_UV2_FLAG_def)

theorem uv2_strip_conversion_witness:
  "om_flags (fill_mesh_191 zero_fill_state uv2_mesh_20) = 0x1
   \<and> om_vertCacheSize (fill_mesh_191 zero_fill_state uv2_mesh_20) = 12
   \<and> m_vertCacheSize uv2_mesh_20 = 20
   \<and> length (copy_mesh_vertices_191 example_mem uv2_mesh_20) = 12 * 2"
proof -
  have fl: "m_flags uv2_mesh_20 = 0x200000001" "m_vertCacheSize uv2_mesh_20 = 20"
    "m_vertCount uv2_mesh_20 = 2" "m_pVertices uv2_mesh_20 = Some 64"
    by (simp_all add: uv2_mesh_20_def uv2_mesh_def)
  have h: "m_flags uv2_mesh_20 AND VERTEX_HAS_UV2_FLAG \<noteq> 0"
    unfolding fl by (rule uv2_mesh_flags(4))
  have n: "m_flags uv2_mesh_20 AND NOT VERTEX_HAS_UV2_FLAG = 0x1"
    using uv2_mesh_flags(1) by (simp add: fl ConvertMeshFlags_191_def)
  from uv2_strip_conversion [OF h, of zero_fill_state example_mem]
  have a: "om_flags (fill_mesh_191 zero_fill_state uv2_mesh_20) = 0x1"
    and b: "om_vertCacheSize (fill_mesh_191 zero_fill_state uv2_mesh_20)
              = CalculateVertexSize_191 (m_flags uv2_mesh_20)"
    and c: "m_pVertices uv2_mesh_20 \<noteq> None
            \<and> m_vertCacheSize uv2_mesh_20
                 = unat (om_vertCacheSize (fill_mesh_191 zero_fill_state uv2_mesh_20)) + 8 \<longrightarrow>
              length (copy_mesh_vertices_191 example_mem uv2_mesh_20)
                = (m_vertCacheSize uv2_mesh_20 - 8) * m_vertCount uv2_mesh_20"
    unfolding n by blast+
  have b': "om_vertCacheSize (fill_mesh_191 zero_fill_state uv2_mesh_20) = 12"
    using b by (simp add: fl uv2_mesh_flags)
  have "length (copy_mesh_vertices_191 example_mem uv2_mesh_20) = 12 * 2"
    using c by (simp add: b' fl)
  with a b' fl(2) show ?thesis by blast
qed

text \<open>
  The claim as stated fails for a mesh that has the bit set and whose header stride is
  12, the size the converter itself computes from the flags: the converted stride is 12
  again, not 8 less (neither than the header stride nor than the computed source size),
  and the converter then copies the declared vertex buffer of 100 bytes, not
  \<open>12 * 2\<close> bytes.
\<close>

theorem uv2_strip_conversion_counterexample:
  "m_flags uv2_mesh AND VERTEX_HAS_UV2_FLAG \<noteq> 0
   \<and> unat (om_vertCacheSize (fill_mesh_191 zero_fill_state uv2_mesh)) + 8
       \<noteq> m_vertCacheSize uv2_mesh
   \<and> unat (om_vertCacheSize (fill_mesh_191 zero_fill_state uv2_mesh)) + 8
       \<noteq> unat (CalculateVertexSize_191 (m_flags uv2_mesh))
   \<and> length (copy_mesh_vertices_191 example_mem uv2_mesh)
       \<noteq> unat (om_vertCacheSize (fill_mesh_191 zero_fill_state uv2_mesh)) * m_vertCount uv2_mesh"
proof -
  have fl: "m_flags uv2_mesh = 0x200000001" "m_vertCacheSize uv2_mesh = 12"
    "m_vertCount uv2_mesh = 2" "m_pVertices uv2_mesh = Some 64" "m_vertBufferSize uv2_mesh = 100"
    by (simp_all add: uv2_mesh_def)
  have s: "om_vertCacheSize (fill_mesh_191 zero_fill_state uv2_mesh) = 12"
    by (simp add: fill_mesh_191_def Let_def fl uv2_mesh_flags)
  have l: "length (copy_mesh_vertices_191 example_mem uv2_mesh) = 100"
    by (simp add: copy_mesh_vertices_191_def v10VertSize_191_def fl uv2_mesh_flags Let_def)
  show ?thesis
    using uv2_mesh_flags(4) by (simp add: s l fl uv2_mesh_flags)
qed

lemma oversized_totals:
  "first_pass example_mem oversized_vg =
     \<lparr> totalMeshCount = 1, totalVertexCount = 1, totalVertexBufSize = 12,
       totalIndexBufSize = 0, totalExtraWeightSize = 0, totalStripCount = 1,
       t_maxBoneIndex = 0 \<rparr>"
  by (simp add: first_pass_def visited_meshes_def oversized_vg_def List.map_filter_def
      first_pass_mesh_def oversized_mesh_def v10VertSize_191_def uv2_mesh_flags
      ConvertMeshFlags_191_def VERTEX_HAS_UV2_FLAG_def has_strip_def scan_mesh_bones_def)

text \<open>
  Claim C5 asks that a write beyond the pre-sized output buffer be detected before it
  happens and stop the conversion. On the container below the converter allocates 4543
  bytes, copies 8192 vertex bytes to offset 304, ends with its cursor at 8603, prints
  the overflow message and passes 8603 as the size of the file to write: the comparison
  with the end of the buffer comes after all writes and stops nothing.
\<close>

theorem vg_overflow_not_fatal:
  "(case ConvertVGData_191 example_vg_sizes example_mem oversized_vg None None 0 of
      None \<Rightarrow> False
    | Some r \<Rightarrow>
        r_outputBufSize r = 4543
      \<and> r_vertOffset r = 304
      \<and> length (r_vertexData r) = 8192
      \<and> r_pWrite r = 8603
      \<and> r_dataSize r = 8603
      \<and> r_messages r = [ErrorBufferOverflow])"
proof -
  have v: "visited_meshes oversized_vg = [oversized_mesh]"
    by (simp add: visited_meshes_def oversized_vg_def List.map_filter_def)
  have b: "BoneStates_191 None None 0 0 = ([], [])"
    by (simp add: BoneStates_191_def)
  have c: "copy_mesh_indices example_mem oversized_mesh = []"
    "copy_mesh_vertices_191 example_mem oversized_mesh = read_bytes example_mem 64 8192"
    "copy_mesh_weights example_mem oversized_mesh = []"
    "has_strip oversized_mesh"
    by (simp_all add: copy_mesh_indices_def copy_mesh_vertices_191_def copy_mesh_weights_def
        has_strip_def oversized_mesh_def v10VertSize_191_def uv2_mesh_flags
        ConvertMeshFlags_191_def VERTEX_HAS_UV2_FLAG_def Let_def)
  have l: "length oversized_vg = 1" by (simp add: oversized_vg_def)
  show ?thesis
    by (simp add: ConvertVGData_191_def Let_def l v b c oversized_totals example_vg_sizes_def
        ALIGN16_def)
qed

subsection \<open>Placement of the collision buffers\<close>

lemma coll_verts_leaves_length:
  "length (fst (coll_verts_leaves hs idxs p)) = length idxs"
proof (induction idxs arbitrary: p)
  case Nil
  then show ?case by simp
next
  case (Cons i rest)
  let ?p2 = "ALIGN64 (ALIGN64 p + vertSize hs i) + leafSize hs i"
  obtain news pEnd where r: "coll_verts_leaves hs rest ?p2 = (news, pEnd)"
    by (cases "coll_verts_leaves hs rest ?p2")
  from Cons.IH [of ?p2] r have "length news = length rest" by simp
  then show ?case by (simp add: Let_def r)
qed

lemma coll_verts_leaves_nth:
  "k < length idxs \<Longrightarrow>
   nch_bvhLeafIndex (fst (coll_verts_leaves hs idxs p) ! k)
     = ALIGN64 (nch_vertIndex (fst (coll_verts_leaves hs idxs p) ! k) + vertSize hs (idxs ! k))
   \<and> nch_unk (fst (coll_verts_leaves hs idxs p) ! k) = ch_bvhFlags (hs ! (idxs ! k))
   \<and> nch_origin (fst (coll_verts_leaves hs idxs p) ! k) = ch_origin (hs ! (idxs ! k))
   \<and> nch_scale (fst (coll_verts_leaves hs idxs p) ! k) = ch_decodeScale (hs ! (idxs ! k))"
proof (induction idxs arbitrary: p k)
  case Nil
  then show ?case by simp
next
  case (Cons i rest)
  let ?p2 = "ALIGN64 (ALIGN64 p + vertSize hs i) + leafSize hs i"
  obtain news pEnd where r: "coll_verts_leaves hs rest ?p2 = (news, pEnd)"
    by (cases "coll_verts_leaves hs rest ?p2")
  show ?case
  proof (cases k)
    case 0
    then show ?thesis by (simp add: Let_def r)
  next
    case (Suc j)
    then have "j < length rest" using Cons.prems by simp
    from Cons.IH [OF this, of ?p2] show ?thesis using Suc by (simp add: Let_def r)
  qed
qed

lemma map_update_same: "(map f xs)[i := f (xs ! i)] = map f xs"
proof (cases "i < length xs")
  case True
  then have "f (xs ! i) = map f xs ! i" by simp
  then show ?thesis by (simp only: list_update_id)
next
  case False
  then have "length (map f xs) \<le> i" by simp
  then show ?thesis by (rule list_update_beyond)
qed

lemma coll_nodes_keeps:
  "length (fst (coll_nodes hs fs co idxs news p)) = length news
   \<and> map nch_vertIndex (fst (coll_nodes hs fs co idxs news p)) = map nch_vertIndex news
   \<and> map nch_bvhLeafIndex (fst (coll_nodes hs fs co idxs news p)) = map nch_bvhLeafIndex news
   \<and> map nch_unk (fst (coll_nodes hs fs co idxs news p)) = map nch_unk news
   \<and> map nch_origin (fst (coll_nodes hs fs co idxs news p)) = map nch_origin news
   \<and> map nch_scale (fst (coll_nodes hs fs co idxs news p)) = map nch_scale news"
proof (induction idxs arbitrary: news p)
  case Nil
  then show ?case by simp
next
  case (Cons i rest)
  let ?news = "news[i := (news ! i) \<lparr> nch_bvhNodeIndex := ALIGN64 p \<rparr>]"
  have k: "map nch_vertIndex ?news = map nch_vertIndex news"
    "map nch_bvhLeafIndex ?news = map nch_bvhLeafIndex news"
    "map nch_unk ?news = map nch_unk news"
    "map nch_origin ?news = map nch_origin news"
    "map nch_scale ?news = map nch_scale news"
    by (simp_all add: map_update map_update_same)
  show ?case
    using Cons.IH [of ?news "ALIGN64 p + nodeSize hs fs co i"] k
    by (simp add: Let_def)
qed

text \<open>
  The converted headers: one per source header, with flags, origin and scale copied, and
  the leaf buffer placed at the next 64-byte boundary behind the vertex buffer of the
  inferred length.
\<close>

lemma collision_header_layout:
  assumes "i < length hs"
  shows "length (fst (ConvertCollisionHeaders_V191 hs fs co p)) = length hs
       \<and> nch_bvhLeafIndex (fst (ConvertCollisionHeaders_V191 hs fs co p) ! i)
           = ALIGN64 (nch_vertIndex (fst (ConvertCollisionHeaders_V191 hs fs co p) ! i)
                      + vertSize hs i)
       \<and> nch_unk (fst (ConvertCollisionHeaders_V191 hs fs co p) ! i) = ch_bvhFlags (hs ! i)
       \<and> nch_origin (fst (ConvertCollisionHeaders_V191 hs fs co p) ! i) = ch_origin (hs ! i)
       \<and> nch_scale (fst (ConvertCollisionHeaders_V191 hs fs co p) ! i) = ch_decodeScale (hs ! i)"
proof -
  let ?idxs = "[0..<length hs]"
  obtain news p1 where v: "coll_verts_leaves hs ?idxs p = (news, p1)"
    by (cases "coll_verts_leaves hs ?idxs p")
  let ?res = "fst (coll_nodes hs fs co ?idxs news p1)"
  have e: "fst (ConvertCollisionHeaders_V191 hs fs co p) = ?res"
    by (simp add: ConvertCollisionHeaders_V191_def v)
  have ln: "length news = length hs"
    using coll_verts_leaves_length [of hs ?idxs p] v by simp
  note kp = coll_nodes_keeps [of hs fs co ?idxs news p1]
  have lr: "length ?res = length hs" using kp ln by simp
  have ii: "i < length ?idxs" using assms by simp
  have nth: "f (?res ! i) = f (news ! i)" if "map f ?res = map f news" for f :: "mstudiocollheader_v8 \<Rightarrow> 'b"
  proof -
    have "f (?res ! i) = map f ?res ! i" using assms lr by simp
    also have "\<dots> = map f news ! i" using that by simp
    also have "\<dots> = f (news ! i)" using assms ln by simp
    finally show ?thesis .
  qed
  from coll_verts_leaves_nth [OF ii, of hs p] v assms
  have nn: "nch_bvhLeafIndex (news ! i) = ALIGN64 (nch_vertIndex (news ! i) + vertSize hs i)"
    "nch_unk (news ! i) = ch_bvhFlags (hs ! i)"
    "nch_origin (news ! i) = ch_origin (hs ! i)"
    "nch_scale (news ! i) = ch_decodeScale (hs ! i)"
    by simp_all
  have "nch_bvhLeafIndex (?res ! i) = nch_bvhLeafIndex (news ! i)"
    "nch_vertIndex (?res ! i) = nch_vertIndex (news ! i)"
    "nch_unk (?res ! i) = nch_unk (news ! i)"
    "nch_origin (?res ! i) = nch_origin (news ! i)"
    "nch_scale (?res ! i) = nch_scale (news ! i)"
    using kp by (simp_all add: nth)
  then show ?thesis using nn lr by (simp add: e)
qed

lemma BoneStates_191_no_overflow_message:
  "ErrorBufferOverflow \<notin> set (snd (BoneStates_191 h d sz mx))"
  by (auto simp: BoneStates_191_def Let_def split: option.splits prod.splits if_splits)

text \<open>
  In general: for every container with at least one level of detail the converter runs
  to the end and hands its final cursor to the file write; the overflow message is
  printed exactly when that cursor lies beyond the allocated buffer.
\<close>

lemma ConvertVGData_191_never_stops:
  assumes "g \<noteq> []"
  shows "\<exists>r. ConvertVGData_191 S vg g h d sz = Some r
           \<and> r_dataSize r = word_of_nat (r_pWrite r)
           \<and> (ErrorBufferOverflow \<in> set (r_messages r)) = (r_outputBufSize r < r_pWrite r)"
proof -
  obtain bs msgs where b: "BoneStates_191 h d sz (t_maxBoneIndex (first_pass vg g)) = (bs, msgs)"
    by (cases "BoneStates_191 h d sz (t_maxBoneIndex (first_pass vg g))")
  have m: "ErrorBufferOverflow \<notin> set msgs"
    using BoneStates_191_no_overflow_message [of h d sz "t_maxBoneIndex (first_pass vg g)"] b
    by simp
  show ?thesis
    using assms m by (simp add: ConvertVGData_191_def Let_def b)
qed

end
